theory Spec2Isabelle
  imports Main "HOL-Library.Word"
begin

section \<open>Time: the part of Go's time package the program uses\<close>

text \<open>
  A \<open>time.Time\<close> is an instant and a Location. The instant is the number of
  nanoseconds since the Unix epoch, as an unbounded integer (Go keeps seconds in an int64,
  far more than an int64 of nanoseconds can hold); \<open>Time\<close> is the type of instants, and
  \<open>Before\<close> compares instants. The Location is kept next to the instant where the
  program reads the clock of a time, formats it or compares it with \<open>==\<close> (see
  \<open>Location\<close> below). The monotonic clock reading is left out. There are no leap
  seconds in Go's time.
\<close>

type_synonym Time = int

definition time_Second :: int where
  "time_Second = 1000000000"

definition time_Minute :: int where
  "time_Minute = 60 * time_Second"

definition time_Hour :: int where
  "time_Hour = 60 * time_Minute"

text \<open>The zero \<open>time.Time\<close> is January 1 of year 1, 00:00:00 UTC.\<close>

definition zeroTime :: Time where
  "zeroTime = - 62135596800 * time_Second"

definition Before :: "Time \<Rightarrow> Time \<Rightarrow> bool" where
  "Before t u = (t < u)"

text \<open>
  A \<open>Location\<close> is a time zone. \<open>UTC\<close> is \<open>time.UTC\<close>, which a \<open>time.Time\<close> keeps as
  a nil pointer: it is the Location of the zero \<open>time.Time\<close> and of what \<open>t.UTC()\<close> and
  \<open>time.Parse\<close> (on the layouts of this program) return. Any other Location is a
  \<open>Zone\<close>, given by the offset from UTC, in seconds east, that it has at an instant;
  \<open>time.Local\<close>, the Location of what \<open>time.Now()\<close> and \<open>time.Unix\<close> return, is one
  (also when its offset is zero), and the functions that need it are given it.
  The year, month, day, hour and minute a time has in its Location, and so what \<open>Format\<close>
  writes for it, are those that the instant moved by the offset has in UTC: \<open>wallClock\<close>
  is that instant, and the functions below that read a clock read it in UTC.
\<close>

datatype Location = UTC | Zone "Time \<Rightarrow> int"

definition FixedZone :: "int \<Rightarrow> Location" where
  "FixedZone offset = Zone (\<lambda>t. offset)"

fun isUTC :: "Location \<Rightarrow> bool" where
  "isUTC UTC = True"
| "isUTC (Zone offset) = False"

fun wallClock :: "Location \<Rightarrow> Time \<Rightarrow> Time" where
  "wallClock UTC t = t"
| "wallClock (Zone offset) t = t + offset t * time_Second"

text \<open>
  \<open>t.UnixNano()\<close> is an int64: Go computes it with wrap-around, so an instant outside
  the int64 range of nanoseconds (the zero time is one) comes back as another value.
  \<open>time.Unix(0, n)\<close> is the instant \<open>n\<close> nanoseconds after the epoch.
\<close>

definition UnixNano :: "Time \<Rightarrow> 64 word" where
  "UnixNano t = word_of_int t"

definition Unix0 :: "64 word \<Rightarrow> Time" where
  "Unix0 n = sint n"

subsection \<open>The civil calendar\<close>

text \<open>
  Days are counted from 1970-01-01. The year of a day is found in a 400-year era that
  starts on March 1, by cutting off 100-year, 4-year and 1-year cycles (as Go's own
  \<open>absDate\<close> does); the month and day come from the day of the March-based year.
\<close>

definition year_of_era :: "int \<Rightarrow> int \<times> int" where
  "year_of_era doe =
     (let n100 = min 3 (doe div 36524);
          r100 = doe - 36524 * n100;
          n4 = r100 div 1461;
          r4 = r100 - 1461 * n4;
          n1 = min 3 (r4 div 365)
      in (100 * n100 + 4 * n4 + n1, r4 - 365 * n1))"

definition civil_from_days :: "int \<Rightarrow> int \<times> int \<times> int" where
  "civil_from_days z0 =
     (let z = z0 + 719468;
          era = z div 146097;
          (yoe, doy) = year_of_era (z mod 146097);
          mp = (5 * doy + 2) div 153;
          d = doy - (153 * mp + 2) div 5 + 1;
          m = (if mp < 10 then mp + 3 else mp - 9);
          y = yoe + era * 400
      in (if m \<le> 2 then y + 1 else y, m, d))"

definition days_from_civil :: "int \<Rightarrow> int \<Rightarrow> int \<Rightarrow> int" where
  "days_from_civil y0 m d =
     (let y = (if m \<le> 2 then y0 - 1 else y0);
          era = y div 400;
          yoe = y mod 400;
          doy = (153 * (if m > 2 then m - 3 else m + 9) + 2) div 5 + d - 1;
          doe = yoe * 365 + yoe div 4 - yoe div 100 + doy
      in era * 146097 + doe - 719468)"

text \<open>The year, month, day, hour and minute of an instant on the clock of UTC.\<close>

definition unixDays :: "Time \<Rightarrow> int" where
  "unixDays t = t div (24 * time_Hour)"

definition Year :: "Time \<Rightarrow> int" where
  "Year t = fst (civil_from_days (unixDays t))"

definition Month :: "Time \<Rightarrow> int" where
  "Month t = fst (snd (civil_from_days (unixDays t)))"

definition Day :: "Time \<Rightarrow> int" where
  "Day t = snd (snd (civil_from_days (unixDays t)))"

definition Hour :: "Time \<Rightarrow> int" where
  "Hour t = (t div time_Hour) mod 24"

definition Minute :: "Time \<Rightarrow> int" where
  "Minute t = (t div time_Minute) mod 60"

text \<open>\<open>time.Date(y, m, d, h, 0, 0, 0, time.UTC)\<close>, for a month, day and hour in range.\<close>

definition Date :: "int \<Rightarrow> int \<Rightarrow> int \<Rightarrow> int \<Rightarrow> Time" where
  "Date y m d h = (days_from_civil y m d * 24 + h) * time_Hour"

subsection \<open>Formatting\<close>

text \<open>
  A layout is the list of the fields Go finds in the layout string:
  \<open>01\<close> is the two-digit month, \<open>02\<close> the two-digit day, \<open>2006\<close> the year,
  \<open>15\<close> the two-digit hour and \<open>04\<close> the two-digit minute.
\<close>

datatype stdChunk = stdZeroMonth | stdZeroDay | stdLongYear | stdHour | stdZeroMinute

definition minFmt :: "stdChunk list" where
  "minFmt = [stdZeroMonth, stdZeroDay, stdLongYear, stdHour, stdZeroMinute]"

definition hourFmt :: "stdChunk list" where
  "hourFmt = [stdZeroMonth, stdZeroDay, stdLongYear, stdHour]"

definition dayFmt :: "stdChunk list" where
  "dayFmt = [stdZeroMonth, stdZeroDay, stdLongYear]"

definition monFmt :: "stdChunk list" where
  "monFmt = [stdZeroMonth, stdLongYear]"

definition digit :: "nat \<Rightarrow> char" where
  "digit n = ''0123456789'' ! (n mod 10)"

function decimal :: "nat \<Rightarrow> string" where
  "decimal n = (if n < 10 then [digit n] else decimal (n div 10) @ [digit n])"
  by pat_completeness auto
termination
  by (relation "measure id") auto

text \<open>Go's \<open>appendInt\<close>: a sign for a negative number, then the digits padded with zeros.\<close>

definition appendInt :: "int \<Rightarrow> nat \<Rightarrow> string" where
  "appendInt x width =
     (let ds = decimal (nat \<bar>x\<bar>)
      in (if x < 0 then ''-'' else '''') @ replicate (width - length ds) CHR ''0'' @ ds)"

fun formatChunk :: "Time \<Rightarrow> stdChunk \<Rightarrow> string" where
  "formatChunk t stdZeroMonth = appendInt (Month t) 2"
| "formatChunk t stdZeroDay = appendInt (Day t) 2"
| "formatChunk t stdLongYear = appendInt (Year t) 4"
| "formatChunk t stdHour = appendInt (Hour t) 2"
| "formatChunk t stdZeroMinute = appendInt (Minute t) 2"

text \<open>
  \<open>Format\<close> on the clock of UTC; a time in a Location \<open>loc\<close> is formatted as
  \<open>Format (wallClock loc t)\<close>.
\<close>

definition Format :: "Time \<Rightarrow> stdChunk list \<Rightarrow> string" where
  "Format t layout = concat (map (formatChunk t) layout)"

text \<open>
  \<open>time.Parse(layout, t.UTC().Format(layout))\<close> with the error dropped, as \<open>prevHour\<close>
  and \<open>prevDay\<close> call it: the fields of the layout are read back and the others are
  zero. A year is read as exactly four digits, so outside 0000..9999 Parse fails and what
  it returns is the zero Time.
\<close>

definition reparse :: "stdChunk list \<Rightarrow> Time \<Rightarrow> Time" where
  "reparse layout t =
     (if stdLongYear \<in> set layout \<and> (Year t < 0 \<or> 9999 < Year t) then zeroTime
      else Date (if stdLongYear \<in> set layout then Year t else 0)
                (if stdZeroMonth \<in> set layout then Month t else 1)
                (if stdZeroDay \<in> set layout then Day t else 1)
                (if stdHour \<in> set layout then Hour t else 0)
           + (if stdZeroMinute \<in> set layout then Minute t * time_Minute else 0))"

text \<open>
  \<open>time.Parse(`2006-01`, fmt.Sprintf("%04d-%02d", year, month))\<close> with the error
  dropped, as \<open>prevMon\<close> calls it, for a month in 1..12.
\<close>

definition parseYearMonth :: "int \<Rightarrow> int \<Rightarrow> Time" where
  "parseYearMonth year month =
     (if year < 0 \<or> 9999 < year then zeroTime else Date year month 1 0)"

section \<open>Samples (bwsample.go)\<close>

type_synonym byte = "8 word"

datatype error =
    errNotOpen | errInvalidBufferSize | errBWTypeConversion | errNoBucket
  | errClearLive | errStorage

record BWSample =
  Ts :: Time
  BytesUp :: "64 word"
  BytesDown :: "64 word"

definition NewBwSample :: BWSample where
  "NewBwSample = \<lparr>Ts = zeroTime, BytesUp = 0, BytesDown = 0\<rparr>"

definition After :: "BWSample \<Rightarrow> Time \<Rightarrow> bool" where
  "After s ts = (\<not> Before (Ts s) ts)"

text \<open>\<open>BWSample.Add\<close>: the byte counts are added (uint64, wrapping); \<open>Ts\<close> is not touched.\<close>

definition BWSample_Add :: "BWSample \<Rightarrow> BWSample \<Rightarrow> BWSample" where
  "BWSample_Add s x = s\<lparr>BytesUp := BytesUp s + BytesUp x, BytesDown := BytesDown s + BytesDown x\<rparr>"

definition TS :: "BWSample \<Rightarrow> Time" where
  "TS s = Ts s"

definition SetTS :: "BWSample \<Rightarrow> Time \<Rightarrow> BWSample" where
  "SetTS s t = s\<lparr>Ts := t\<rparr>"

text \<open>
  \<open>TimeLabel\<close> formats the timestamp in its own Location, \<open>loc\<close>: the record keeps the
  instant of \<open>Ts\<close>, and the Location of \<open>Ts\<close> is given with the sample.
\<close>

definition TimeLabel :: "BWSample \<Rightarrow> Location \<Rightarrow> stdChunk list \<Rightarrow> string" where
  "TimeLabel s loc fmt = Format (wallClock loc (Ts s)) fmt"

text \<open>
  The 24-byte layout. The source writes the three 64-bit values through unsafe pointers,
  in the byte order of the host; the model fixes little-endian.
\<close>

fun put_le :: "nat \<Rightarrow> nat \<Rightarrow> byte list" where
  "put_le 0 n = []"
| "put_le (Suc k) n = word_of_nat (n mod 256) # put_le k (n div 256)"

fun get_le :: "byte list \<Rightarrow> nat" where
  "get_le [] = 0"
| "get_le (b # bs) = unat b + 256 * get_le bs"

definition store64 :: "64 word \<Rightarrow> byte list" where
  "store64 w = put_le 8 (unat w)"

definition load64 :: "byte list \<Rightarrow> 64 word" where
  "load64 bs = word_of_nat (get_le bs)"

definition bwSampleSize :: nat where
  "bwSampleSize = 8 * 3"

definition Encode :: "BWSample \<Rightarrow> byte list" where
  "Encode s = store64 (UnixNano (Ts s)) @ store64 (BytesUp s) @ store64 (BytesDown s)"

definition Decode :: "byte list \<Rightarrow> error + BWSample" where
  "Decode b =
     (if length b \<noteq> bwSampleSize then Inl errInvalidBufferSize
      else Inr \<lparr>Ts = Unix0 (load64 (take 8 b)),
                BytesUp = load64 (take 8 (drop 8 b)),
                BytesDown = load64 (take 8 (drop 16 b))\<rparr>)"

section \<open>The store: boltdb as the program uses it\<close>

text \<open>
  A bucket holds its entries in the byte order of their keys; the four buckets are made
  on first use, so a bucket may be absent. A transaction works on a copy of the buckets.
  \<open>Put\<close>, \<open>Delete\<close> and \<open>CreateBucketIfNotExists\<close> do not fail on the keys
  and names of this program (they are short and not empty); what can fail is the commit.
\<close>

type_synonym bucket = "(string \<times> byte list) list"

datatype bktName = bktMin | bktHour | bktDay | bktMon

type_synonym Tx = "bktName \<Rightarrow> bucket option"

fun key_less :: "string \<Rightarrow> string \<Rightarrow> bool" where
  "key_less [] [] = False"
| "key_less [] (y # ys) = True"
| "key_less (x # xs) [] = False"
| "key_less (x # xs) (y # ys) =
     ((of_char x :: nat) < of_char y \<or> (x = y \<and> key_less xs ys))"

fun bucket_put :: "string \<Rightarrow> byte list \<Rightarrow> bucket \<Rightarrow> bucket" where
  "bucket_put k v [] = [(k, v)]"
| "bucket_put k v ((k', v') # es) =
     (if k = k' then (k, v) # es
      else if key_less k k' then (k, v) # (k', v') # es
      else (k', v') # bucket_put k v es)"

definition bucket_delete :: "string \<Rightarrow> bucket \<Rightarrow> bucket" where
  "bucket_delete k es = filter (\<lambda>e. fst e \<noteq> k) es"

definition entries :: "Tx \<Rightarrow> bktName \<Rightarrow> bucket" where
  "entries tx n = (case tx n of None \<Rightarrow> [] | Some es \<Rightarrow> es)"

definition Get :: "Tx \<Rightarrow> bktName \<Rightarrow> string \<Rightarrow> byte list option" where
  "Get tx n k = map_of (entries tx n) k"

definition Put :: "Tx \<Rightarrow> bktName \<Rightarrow> string \<Rightarrow> byte list \<Rightarrow> Tx" where
  "Put tx n k v = tx(n := map_option (bucket_put k v) (tx n))"

definition Delete :: "Tx \<Rightarrow> bktName \<Rightarrow> string \<Rightarrow> Tx" where
  "Delete tx n k = tx(n := map_option (bucket_delete k) (tx n))"

definition CreateBucketIfNotExists :: "Tx \<Rightarrow> bktName \<Rightarrow> Tx" where
  "CreateBucketIfNotExists tx n = (case tx n of None \<Rightarrow> tx(n \<mapsto> []) | Some es \<Rightarrow> tx)"

text \<open>
  \<open>db.Batch(fn)\<close>: \<open>fn\<close> runs on the transaction; when it returns an error, or when
  the commit fails (\<open>commits\<close> is false: an I/O error of the store), the store is left as
  it was and the error is returned.
\<close>

definition Batch :: "(Tx \<Rightarrow> error + Tx) \<Rightarrow> Tx \<Rightarrow> bool \<Rightarrow> error option \<times> Tx" where
  "Batch fn st commits =
     (case fn st of
        Inl e \<Rightarrow> (Some e, st)
      | Inr st' \<Rightarrow> if commits then (None, st') else (Some errStorage, st))"

section \<open>The aggregation engine (bwdb)\<close>

text \<open>\<open>last_db\<close> is the instant of \<open>db.last\<close> and \<open>last_loc\<close> its Location.\<close>

record bwdb =
  open_db :: bool
  db :: Tx
  hist :: "BWSample list"
  histSize :: int
  last_db :: Time
  last_loc :: Location

definition defaultHistSize :: int where
  "defaultHistSize = 60"

text \<open>\<open>NewBwDb\<close>; \<open>opened\<close> is what \<open>bolt.Open\<close> returned.\<close>

definition NewBwDb :: "error + Tx \<Rightarrow> int \<Rightarrow> error + bwdb" where
  "NewBwDb opened liveSize =
     (case opened of
        Inl err \<Rightarrow> Inl err
      | Inr st \<Rightarrow>
          Inr \<lparr>open_db = True, db = st, hist = [],
               histSize = (if liveSize \<le> 0 then defaultHistSize else liveSize),
               last_db = zeroTime, last_loc = UTC\<rparr>)"

text \<open>
  \<open>updateVal\<close>: the insert-or-sum of a sample at a key of a bucket. The stored sample
  is decoded into \<open>sold\<close>, the new one is added to it and \<open>sold\<close> is stored again.
\<close>

definition updateVal :: "Tx \<Rightarrow> bktName \<Rightarrow> string \<Rightarrow> BWSample \<Rightarrow> error + Tx" where
  "updateVal tx bkt key s =
     (case Get tx bkt key of
        None \<Rightarrow> Inr (Put tx bkt key (Encode s))
      | Some v \<Rightarrow>
          (case Decode v of
             Inl err \<Rightarrow> Inl err
           | Inr sold \<Rightarrow> Inr (Put tx bkt key (Encode (BWSample_Add sold s)))))"

text \<open>
  The loop of \<open>sumAndShift\<close>. The callback of \<open>ForEach\<close> deletes the key it is at, which
  bolt does not allow for: when the transaction has written the bucket before the walk
  begins (in \<open>Add\<close>, the hour bucket has had the minutes summed into it when it is walked),
  the walk can pass over entries. \<open>seen\<close> says which keys the walk reaches; the entries
  reached are visited in key order, and an entry passed over is neither summed nor
  deleted.
\<close>

fun sumLoop ::
  "(string \<Rightarrow> bool) \<Rightarrow> Tx \<Rightarrow> bktName \<Rightarrow> BWSample \<Rightarrow> bucket \<Rightarrow> error + Tx \<times> BWSample" where
  "sumLoop seen tx pullBkt s [] = Inr (tx, s)"
| "sumLoop seen tx pullBkt s ((k, v) # es) =
     (if \<not> seen k then sumLoop seen tx pullBkt s es
      else case Decode v of
        Inl err \<Rightarrow> Inl err
      | Inr sx \<Rightarrow>
          sumLoop seen (Delete tx pullBkt k) pullBkt (SetTS (BWSample_Add s sx) (TS sx)) es)"

definition sumAndShift ::
  "(string \<Rightarrow> bool) \<Rightarrow> Tx \<Rightarrow> bktName \<Rightarrow> bktName \<Rightarrow> string \<Rightarrow> error + Tx" where
  "sumAndShift seen tx pullBkt putBkt putKey =
     (case sumLoop seen tx pullBkt NewBwSample (entries tx pullBkt) of
        Inl err \<Rightarrow> Inl err
      | Inr (tx', s) \<Rightarrow> updateVal tx' putBkt putKey s)"

text \<open>
  The loop of \<open>shiftIfOlder\<close>. Each \<open>shiftIfOlder\<close> has a transaction of its own, which
  has not written the source bucket when the walk begins: \<open>ForEach\<close> is taken to visit
  every entry the bucket held then, in key order, while the callback deletes visited
  keys. The decoded sample is in the Location \<open>local\<close> of the process, and the key it
  moves to is formatted there.
\<close>

fun shiftLoop ::
  "Location \<Rightarrow> Tx \<Rightarrow> bktName \<Rightarrow> bktName \<Rightarrow> Time \<Rightarrow> stdChunk list \<Rightarrow> bucket \<Rightarrow> error + Tx" where
  "shiftLoop local tx srcBkt dstBkt tcheck keyFmt [] = Inr tx"
| "shiftLoop local tx srcBkt dstBkt tcheck keyFmt ((k, v) # es) =
     (case Decode v of
        Inl err \<Rightarrow> Inl err
      | Inr s \<Rightarrow>
          if Before (TS s) tcheck then
            (case updateVal (Delete tx srcBkt k) dstBkt
                    (Format (wallClock local (TS s)) keyFmt) s of
               Inl err \<Rightarrow> Inl err
             | Inr tx' \<Rightarrow> shiftLoop local tx' srcBkt dstBkt tcheck keyFmt es)
          else shiftLoop local tx srcBkt dstBkt tcheck keyFmt es)"

definition shiftTx ::
  "Location \<Rightarrow> bktName \<Rightarrow> bktName \<Rightarrow> Time \<Rightarrow> stdChunk list \<Rightarrow> Tx \<Rightarrow> error + Tx" where
  "shiftTx local srcBktKey dstBktKey tcheck keyFmt tx =
     (let tx1 = CreateBucketIfNotExists tx srcBktKey;
          tx2 = CreateBucketIfNotExists tx1 dstBktKey
      in shiftLoop local tx2 srcBktKey dstBktKey tcheck keyFmt (entries tx2 srcBktKey))"

definition shiftIfOlder ::
  "bwdb \<Rightarrow> Location \<Rightarrow> bktName \<Rightarrow> bktName \<Rightarrow> Time \<Rightarrow> stdChunk list \<Rightarrow> bool
     \<Rightarrow> error option \<times> bwdb" where
  "shiftIfOlder D local srcBktKey dstBktKey tcheck keyFmt commits =
     (case Batch (shiftTx local srcBktKey dstBktKey tcheck keyFmt) (db D) commits of
        (err, st) \<Rightarrow> (err, D\<lparr>db := st\<rparr>))"

definition prevHour :: "Time \<Rightarrow> Time" where
  "prevHour ts = reparse hourFmt ts + time_Hour"

definition prevDay :: "Time \<Rightarrow> Time" where
  "prevDay ts = reparse dayFmt ts + 24 * time_Hour"

definition prevMon :: "Time \<Rightarrow> Time" where
  "prevMon ts =
     (let year = Year ts; month = Month ts
      in if month = 1 then parseYearMonth (year - 1) 12
         else parseYearMonth year (month - 1))"

text \<open>
  \<open>Rebase\<close> runs three batches; \<open>c1\<close>, \<open>c2\<close>, \<open>c3\<close> say whether each commits, and
  \<open>local\<close> is the Location \<open>time.Local\<close> of the process.
\<close>

definition Rebase ::
  "bwdb \<Rightarrow> Time \<Rightarrow> Location \<Rightarrow> bool \<Rightarrow> bool \<Rightarrow> bool \<Rightarrow> error option \<times> bwdb" where
  "Rebase D ts local c1 c2 c3 =
     (if \<not> open_db D then (Some errNotOpen, D)
      else case shiftIfOlder D local bktMin bktHour (prevHour ts) hourFmt c1 of
        (Some err, D1) \<Rightarrow> (Some err, D1)
      | (None, D1) \<Rightarrow>
          (case shiftIfOlder D1 local bktHour bktDay (prevDay ts) dayFmt c2 of
             (Some err, D2) \<Rightarrow> (Some err, D2)
           | (None, D2) \<Rightarrow> shiftIfOlder D2 local bktDay bktMon (prevMon ts) monFmt c3))"

text \<open>
  The function \<open>addOutOfOrder\<close> hands to \<open>Batch\<close>. \<open>lst\<close> and \<open>lstLoc\<close> are the instant
  and the Location of \<open>db.last\<close>, \<open>loc\<close> is the Location of the timestamp of the sample;
  the minute, the hour and the day of each time are read in its own Location.
\<close>

definition outOfOrderTx :: "Time \<Rightarrow> Location \<Rightarrow> BWSample \<Rightarrow> Location \<Rightarrow> Tx \<Rightarrow> error + Tx" where
  "outOfOrderTx lst lstLoc s loc tx =
     (if Minute (wallClock loc (TS s)) = Minute (wallClock lstLoc lst) then
        updateVal (CreateBucketIfNotExists tx bktMin) bktMin (TimeLabel s loc minFmt) s
      else if Hour (wallClock loc (TS s)) = Hour (wallClock lstLoc lst) then
        updateVal (CreateBucketIfNotExists tx bktHour) bktHour (TimeLabel s loc hourFmt) s
      else if Day (wallClock loc (TS s)) = Day (wallClock lstLoc lst) then
        updateVal (CreateBucketIfNotExists tx bktDay) bktDay (TimeLabel s loc dayFmt) s
      else
        updateVal (CreateBucketIfNotExists tx bktMon) bktMon (TimeLabel s loc monFmt) s)"

definition addOutOfOrder :: "bwdb \<Rightarrow> BWSample \<Rightarrow> Location \<Rightarrow> bool \<Rightarrow> error option \<times> bwdb" where
  "addOutOfOrder D s loc commits =
     (if \<not> open_db D then (Some errNotOpen, D)
      else case Batch (outOfOrderTx (last_db D) (last_loc D) s loc) (db D) commits of
        (err, st) \<Rightarrow> (err, D\<lparr>db := st\<rparr>))"

definition AddRand :: "bwdb \<Rightarrow> BWSample \<Rightarrow> Location \<Rightarrow> bool \<Rightarrow> error option \<times> bwdb" where
  "AddRand D s loc commits = addOutOfOrder D s loc commits"

text \<open>
  The trim loop of \<open>Add\<close>: the back of the list is removed while the list is longer
  than \<open>histSize\<close>. (On an empty list Go's \<open>Remove(Back())\<close> would panic; \<open>histSize\<close>
  is positive from \<open>NewBwDb\<close> on, so the loop never gets there.)
\<close>

function trim :: "BWSample list \<Rightarrow> int \<Rightarrow> BWSample list" where
  "trim h n = (if h \<noteq> [] \<and> n < int (length h) then trim (butlast h) n else h)"
  by pat_completeness auto
termination
  by (relation "measure (\<lambda>(h, n). length h)") auto

declare trim.simps [simp del]

text \<open>
  The function \<open>Add\<close> hands to \<open>Batch\<close>; \<open>lst\<close> and \<open>lstLoc\<close> are \<open>db.last\<close> when it
  runs, \<open>loc\<close> is the Location of the timestamp of the sample, and \<open>seen\<close> says for
  each bucket which keys a walk of \<open>sumAndShift\<close> reaches. In \<open>Add\<close> the test
  \<open>db.last == zeroTime\<close> compares the instant and the Location: Go's \<open>==\<close> on two
  \<open>time.Time\<close> compares the Location pointers too, and that of the zero time is nil.
\<close>

definition shiftIfNew ::
  "(bktName \<Rightarrow> string \<Rightarrow> bool) \<Rightarrow> Time \<Rightarrow> Location \<Rightarrow> BWSample \<Rightarrow> Location \<Rightarrow> stdChunk list
     \<Rightarrow> bktName \<Rightarrow> bktName \<Rightarrow> Tx \<Rightarrow> error + Tx" where
  "shiftIfNew seen lst lstLoc s loc fmt pullBkt putBkt tx =
     (if TimeLabel s loc fmt \<noteq> Format (wallClock lstLoc lst) fmt
      then sumAndShift (seen pullBkt) tx pullBkt putBkt (Format (wallClock lstLoc lst) fmt)
      else Inr tx)"

definition addTx ::
  "(bktName \<Rightarrow> string \<Rightarrow> bool) \<Rightarrow> Time \<Rightarrow> Location \<Rightarrow> BWSample \<Rightarrow> Location \<Rightarrow> Tx
     \<Rightarrow> error + Tx" where
  "addTx seen lst lstLoc s loc tx0 =
     (let tx = CreateBucketIfNotExists (CreateBucketIfNotExists (CreateBucketIfNotExists
                 (CreateBucketIfNotExists tx0 bktMin) bktHour) bktDay) bktMon
      in case shiftIfNew seen lst lstLoc s loc hourFmt bktMin bktHour tx of
           Inl err \<Rightarrow> Inl err | Inr tx1 \<Rightarrow>
         case shiftIfNew seen lst lstLoc s loc dayFmt bktHour bktDay tx1 of
           Inl err \<Rightarrow> Inl err | Inr tx2 \<Rightarrow>
         case shiftIfNew seen lst lstLoc s loc monFmt bktDay bktMon tx2 of
           Inl err \<Rightarrow> Inl err | Inr tx3 \<Rightarrow>
         case updateVal tx3 bktMin (TimeLabel s loc minFmt) s of Inl err \<Rightarrow> Inl err | Inr tx4 \<Rightarrow>
         case updateVal tx4 bktHour (TimeLabel s loc hourFmt) s of Inl err \<Rightarrow> Inl err | Inr tx5 \<Rightarrow>
         case updateVal tx5 bktDay (TimeLabel s loc dayFmt) s of Inl err \<Rightarrow> Inl err | Inr tx6 \<Rightarrow>
         updateVal tx6 bktMon (TimeLabel s loc monFmt) s)"

definition Add ::
  "bwdb \<Rightarrow> BWSample \<Rightarrow> Location \<Rightarrow> (bktName \<Rightarrow> string \<Rightarrow> bool) \<Rightarrow> bool
     \<Rightarrow> error option \<times> bwdb" where
  "Add D s loc seen commits =
     (if \<not> open_db D then (Some errNotOpen, D)
      else if \<not> After s (last_db D) then addOutOfOrder D s loc commits
      else
        let D1 = D\<lparr>hist := trim (s # hist D) (histSize D)\<rparr>;
            D2 = (if last_db D1 = zeroTime \<and> isUTC (last_loc D1)
                  then D1\<lparr>last_db := TS s, last_loc := loc\<rparr> else D1)
        in case Batch (addTx seen (last_db D2) (last_loc D2) s loc) (db D2) commits of
             (Some err, st) \<Rightarrow> (Some err, D2\<lparr>db := st\<rparr>)
           | (None, st) \<Rightarrow> (None, D2\<lparr>db := st, last_db := TS s, last_loc := loc\<rparr>))"

fun decodeAll :: "bucket \<Rightarrow> error + BWSample list" where
  "decodeAll [] = Inr []"
| "decodeAll ((k, v) # es) =
     (case Decode v of
        Inl err \<Rightarrow> Inl err
      | Inr s \<Rightarrow> (case decodeAll es of Inl err \<Rightarrow> Inl err | Inr ss \<Rightarrow> Inr (s # ss)))"

definition pullSet :: "bwdb \<Rightarrow> bktName \<Rightarrow> error + BWSample list" where
  "pullSet D bktName =
     (if \<not> open_db D then Inl errNotOpen
      else case db D bktName of None \<Rightarrow> Inl errNoBucket | Some es \<Rightarrow> decodeAll es)"

definition LiveSet :: "bwdb \<Rightarrow> error + BWSample list" where
  "LiveSet D = (if \<not> open_db D then Inl errNotOpen else Inr (hist D))"

definition purge :: "bwdb \<Rightarrow> bool \<Rightarrow> error option \<times> bwdb" where
  "purge D commits =
     (if \<not> open_db D then (Some errNotOpen, D)
      else
        let D1 = D\<lparr>last_db := zeroTime, last_loc := UTC, hist := []\<rparr>
        in if length (hist D1) \<noteq> 0 then (Some errClearLive, D1)
           else case Batch (\<lambda>tx. Inr (\<lambda>n. map_option (\<lambda>es. []) (tx n))) (db D1) commits of
             (err, st) \<Rightarrow> (err, D1\<lparr>db := st\<rparr>))"

text \<open>\<open>Close\<close>; \<open>closes\<close> says whether closing the store succeeds.\<close>

definition Close :: "bwdb \<Rightarrow> bool \<Rightarrow> error option \<times> bwdb" where
  "Close D closes =
     (if \<not> open_db D then (Some errNotOpen, D)
      else if \<not> closes then (Some errStorage, D)
      else (None, D\<lparr>hist := [], open_db := False\<rparr>))"

section \<open>Notions the properties are stated with\<close>

text \<open>The start of the hour, day and month an instant lies in, and of the month before.\<close>

definition start_of_hour :: "Time \<Rightarrow> Time" where
  "start_of_hour t = t - t mod time_Hour"

definition start_of_day :: "Time \<Rightarrow> Time" where
  "start_of_day t = t - t mod (24 * time_Hour)"

definition start_of_month :: "Time \<Rightarrow> Time" where
  "start_of_month t = Date (Year t) (Month t) 1 0"

definition start_of_prev_month :: "Time \<Rightarrow> Time" where
  "start_of_prev_month t =
     (if Month t = 1 then Date (Year t - 1) 12 1 0 else Date (Year t) (Month t - 1) 1 0)"

text \<open>
  An entry is kept at a cutoff when it decodes to a sample whose timestamp is not before
  the cutoff; \<open>all_at_or_after\<close> says so of every entry of a bucket.
\<close>

definition kept :: "Time \<Rightarrow> string \<times> byte list \<Rightarrow> bool" where
  "kept tc e = (case Decode (snd e) of Inl err \<Rightarrow> False | Inr s \<Rightarrow> tc \<le> Ts s)"

definition all_at_or_after :: "bucket \<Rightarrow> Time \<Rightarrow> bool" where
  "all_at_or_after es t = list_all (kept t) es"

text \<open>
  A run of insert-or-sum operations, each on a bucket, a key and a sample, and the samples
  a run writes to one key of one bucket, in the order they are written.
\<close>

fun updateVals :: "Tx \<Rightarrow> (bktName \<times> string \<times> BWSample) list \<Rightarrow> error + Tx" where
  "updateVals tx [] = Inr tx"
| "updateVals tx ((bkt, key, s) # ops) =
     (case updateVal tx bkt key s of Inl err \<Rightarrow> Inl err | Inr tx' \<Rightarrow> updateVals tx' ops)"

definition written :: "(bktName \<times> string \<times> BWSample) list \<Rightarrow> bktName \<Rightarrow> string \<Rightarrow> BWSample list" where
  "written ops bkt key =
     map (\<lambda>op. snd (snd op)) (filter (\<lambda>op. fst op = bkt \<and> fst (snd op) = key) ops)"


text \<open>A walk of \<open>sumAndShift\<close> that reaches every key.\<close>

definition seesAll :: "bktName \<Rightarrow> string \<Rightarrow> bool" where
  "seesAll n k = True"

text \<open>The operations of the engine, and a run of them from a state.\<close>

datatype dbOp =
    OpAdd BWSample Location "bktName \<Rightarrow> string \<Rightarrow> bool" bool
  | OpAddRand BWSample Location bool
  | OpRebase Time Location bool bool bool
  | OpPurge bool | OpClose bool

fun dbStep :: "bwdb \<Rightarrow> dbOp \<Rightarrow> bwdb" where
  "dbStep D (OpAdd s loc seen c) = snd (Add D s loc seen c)"
| "dbStep D (OpAddRand s loc c) = snd (AddRand D s loc c)"
| "dbStep D (OpRebase ts local c1 c2 c3) = snd (Rebase D ts local c1 c2 c3)"
| "dbStep D (OpPurge c) = snd (purge D c)"
| "dbStep D (OpClose c) = snd (Close D c)"

fun dbRun :: "bwdb \<Rightarrow> dbOp list \<Rightarrow> bwdb" where
  "dbRun D [] = D"
| "dbRun D (x # xs) = dbRun (dbStep D x) xs"

text \<open>
  A run of \<open>Add\<close> calls, each with its sample, the Location of its timestamp, the keys
  its walks reach and whether its batch commits; and the runs in which every call takes
  the in-order path (the engine is open and the sample is not before \<open>last\<close>).
\<close>

type_synonym addCall = "BWSample \<times> Location \<times> (bktName \<Rightarrow> string \<Rightarrow> bool) \<times> bool"

fun addAll :: "bwdb \<Rightarrow> addCall list \<Rightarrow> bwdb" where
  "addAll D [] = D"
| "addAll D ((s, loc, seen, c) # xs) = addAll (snd (Add D s loc seen c)) xs"

fun inOrder :: "bwdb \<Rightarrow> addCall list \<Rightarrow> bool" where
  "inOrder D [] = True"
| "inOrder D ((s, loc, seen, c) # xs) =
     (open_db D \<and> After s (last_db D) \<and> inOrder (snd (Add D s loc seen c)) xs)"

section \<open>The sampler (Iface)\<close>

datatype ifaceError =
    ErrInvalidInterface | ErrClosed | ErrInterfaceOpen | ErrFailedSeek | ErrInvalidData | ErrIO

text \<open>
  \<open>fioSend\<close> and \<open>fioRecv\<close> say whether the file handle is there (not nil). What the
  operating system answers is given to each call: whether opening the two counter files
  succeeds, and what \<open>getFioInt\<close> returns for each file.
\<close>

record Iface =
  fioSend :: bool
  fioRecv :: bool
  lastSend :: "64 word"
  lastRecv :: "64 word"
  open_if :: bool

definition reopenInterfaces :: "Iface \<Rightarrow> bool \<Rightarrow> bool \<Rightarrow> ifaceError option \<times> Iface" where
  "reopenInterfaces iface rxOpens txOpens =
     (if fioSend iface \<or> fioRecv iface then (Some ErrInterfaceOpen, iface)
      else if \<not> rxOpens then (Some ErrInvalidInterface, iface)
      else if \<not> txOpens then (Some ErrInvalidInterface, iface)
      else (None, iface\<lparr>fioSend := True, fioRecv := True\<rparr>))"

definition NewIfmon :: "bool \<Rightarrow> bool \<Rightarrow> Iface" where
  "NewIfmon rxOpens txOpens =
     snd (reopenInterfaces
       \<lparr>fioSend = False, fioRecv = False, lastSend = 0, lastRecv = 0, open_if = True\<rparr>
       rxOpens txOpens)"

definition closeInterfaces :: "Iface \<Rightarrow> Iface" where
  "closeInterfaces iface =
     iface\<lparr>fioSend := False, lastSend := 0, fioRecv := False, lastRecv := 0\<rparr>"

text \<open>\<open>Iface.Close\<close>; closing a nil handle is an error of \<open>os.File.Close\<close>.\<close>

definition Iface_Close :: "Iface \<Rightarrow> bool \<Rightarrow> bool \<Rightarrow> ifaceError option \<times> Iface" where
  "Iface_Close iface sendCloses recvCloses =
     (if \<not> open_if iface then (Some ErrClosed, iface)
      else if \<not> fioSend iface \<or> \<not> sendCloses then (Some ErrIO, iface)
      else if \<not> fioRecv iface \<or> \<not> recvCloses then (Some ErrIO, iface)
      else (None, iface\<lparr>open_if := False, fioSend := False, fioRecv := False\<rparr>))"

text \<open>
  \<open>GetStats\<close> returns the bytes sent, the bytes received and the error (always nil),
  with the sampler as it leaves it. \<open>rxRead\<close> and \<open>txRead\<close> are what \<open>getFioInt\<close>
  returns for the receive and the send file.
\<close>

definition GetStats ::
  "Iface \<Rightarrow> bool \<Rightarrow> bool \<Rightarrow> ifaceError + 64 word \<Rightarrow> ifaceError + 64 word
     \<Rightarrow> (64 word \<times> 64 word \<times> ifaceError option) \<times> Iface" where
  "GetStats iface0 rxOpens txOpens rxRead txRead =
     (case (if \<not> fioSend iface0 \<or> \<not> fioRecv iface0
            then reopenInterfaces iface0 rxOpens txOpens else (None, iface0)) of
        (Some err, iface) \<Rightarrow> ((0, 0, None), iface)
      | (None, iface) \<Rightarrow>
          (case rxRead of
             Inl err \<Rightarrow> ((0, 0, None), closeInterfaces iface)
           | Inr rx \<Rightarrow>
               (case txRead of
                  Inl err \<Rightarrow> ((0, 0, None), closeInterfaces iface)
                | Inr tx \<Rightarrow>
                    let sendInt = (if lastSend iface = 0 then 0 else tx - lastSend iface);
                        recvInt = (if lastRecv iface = 0 then 0 else rx - lastRecv iface)
                    in ((sendInt, recvInt, None), iface\<lparr>lastSend := tx, lastRecv := rx\<rparr>))))"

text \<open>
  A call of \<open>GetStats\<close> reads the two counters when its handles are there, or can be
  opened again, and both \<open>getFioInt\<close> calls succeed.
\<close>

definition handles_ready :: "Iface \<Rightarrow> bool \<Rightarrow> bool \<Rightarrow> bool" where
  "handles_ready iface rxOpens txOpens =
     (if fioSend iface \<and> fioRecv iface then True
      else \<not> fioSend iface \<and> \<not> fioRecv iface \<and> rxOpens \<and> txOpens)"

type_synonym osAnswer = "bool \<times> bool \<times> (ifaceError + 64 word) \<times> (ifaceError + 64 word)"

fun reads_both :: "Iface \<Rightarrow> osAnswer \<Rightarrow> bool" where
  "reads_both iface (rxOpens, txOpens, rxRead, txRead) =
     (handles_ready iface rxOpens txOpens \<and> \<not> isl rxRead \<and> \<not> isl txRead)"

text \<open>A run of \<open>GetStats\<close> calls, and the runs in which no call reads the counters.\<close>

fun GetStats_calls :: "Iface \<Rightarrow> osAnswer list \<Rightarrow> Iface" where
  "GetStats_calls iface [] = iface"
| "GetStats_calls iface ((rxOpens, txOpens, rxRead, txRead) # os) =
     GetStats_calls (snd (GetStats iface rxOpens txOpens rxRead txRead)) os"

fun no_read :: "Iface \<Rightarrow> osAnswer list \<Rightarrow> bool" where
  "no_read iface [] = True"
| "no_read iface ((rxOpens, txOpens, rxRead, txRead) # os) =
     (\<not> reads_both iface (rxOpens, txOpens, rxRead, txRead)
      \<and> no_read (snd (GetStats iface rxOpens txOpens rxRead txRead)) os)"

section \<open>The live fan-out (live.go)\<close>

text \<open>
  A consumer is an opaque handle of type \<open>'c\<close>. An id is a Go \<open>int\<close>, a machine integer:
  a word of 64 bits (of 32 bits on a 32-bit build), so that \<open>liveIds++\<close> wraps round and
  an id can be handed out a second time. The map from ids to consumers is a list of
  pairs, visited in the order of the list (Go visits a map in no fixed order). The calls
  made on consumers are returned as a trace. \<open>fails\<close> says for which consumers \<open>Write\<close>
  returns an error in this broadcast.
\<close>

type_synonym liveId = "64 word"


record 'c LiveFeeder =
  liveIds :: liveId
  liveConsumers :: "(liveId \<times> 'c) list"

definition NewLiveFeeder :: "'c LiveFeeder" where
  "NewLiveFeeder = \<lparr>liveIds = 0, liveConsumers = []\<rparr>"

definition map_delete :: "'k \<Rightarrow> ('k \<times> 'c) list \<Rightarrow> ('k \<times> 'c) list" where
  "map_delete k m = filter (\<lambda>e. fst e \<noteq> k) m"

text \<open>
  \<open>lf.liveConsumers[lf.liveIds] = lc\<close> replaces the consumer the map may hold at that id.
\<close>

definition RegisterLiveFeeder :: "'c LiveFeeder \<Rightarrow> 'c \<Rightarrow> liveId \<times> 'c LiveFeeder" where
  "RegisterLiveFeeder lf lc =
     (let ident = liveIds lf + 1
      in (ident, lf\<lparr>liveIds := ident, liveConsumers := (ident, lc) # map_delete ident (liveConsumers lf)\<rparr>))"











section \<open>Samples: the 24-byte encoding\<close>

lemma length_put_le: "length (put_le k n) = k"
  by (induction k arbitrary: n) simp_all

lemma get_put_le: "n < 256 ^ k \<Longrightarrow> get_le (put_le k n) = n"
proof (induction k arbitrary: n)
  case 0
  then show ?case by simp
next
  case (Suc k)
  have "n div 256 < 256 ^ k" using Suc.prems by (simp add: less_mult_imp_div_less mult.commute)
  then have "get_le (put_le k (n div 256)) = n div 256" by (rule Suc.IH)
  moreover have "unat (word_of_nat (n mod 256) :: byte) = n mod 256"
    by (simp add: unat_of_nat)
  ultimately show ?case by simp
qed

lemma get_le_bound: "get_le bs < 256 ^ length bs"
proof (induction bs)
  case Nil
  then show ?case by simp
next
  case (Cons b bs)
  have "unat b < 256" using unsigned_less [of b, where ?'a = nat] by simp
  with Cons show ?case by simp
qed

lemma put_get_le: "put_le (length bs) (get_le bs) = bs"
proof (induction bs)
  case Nil
  then show ?case by simp
next
  case (Cons b bs)
  have b: "unat b < 256" using unsigned_less [of b, where ?'a = nat] by simp
  then have "(unat b + 256 * get_le bs) mod 256 = unat b"
    and "(unat b + 256 * get_le bs) div 256 = get_le bs" by simp_all
  with Cons show ?case by simp
qed

lemma length_store64: "length (store64 w) = 8"
  by (simp add: store64_def length_put_le)

lemma load_store64: "load64 (store64 w) = w"
proof -
  have "unat w < 256 ^ 8" using unsigned_less [of w, where ?'a = nat] by simp
  then show ?thesis by (simp add: load64_def store64_def get_put_le)
qed

lemma store_load64: "length bs = 8 \<Longrightarrow> store64 (load64 bs) = bs"
proof -
  assume l: "length bs = 8"
  have "get_le bs < 2 ^ 64" using get_le_bound [of bs] l by simp
  then have "unat (word_of_nat (get_le bs) :: 64 word) = get_le bs"
    by (simp add: unat_of_nat)
  then show ?thesis using put_get_le [of bs] l by (simp add: load64_def store64_def)
qed


lemma Decode_Encode:
  "Decode (Encode s) = Inr (s\<lparr>Ts := sint (word_of_int (Ts s) :: 64 word)\<rparr>)"
  by (simp add: Decode_def Encode_def bwSampleSize_def length_store64 load_store64
      UnixNano_def Unix0_def)

lemma Encode_Decode:
  assumes "Decode b = Inr s"
  shows "Encode s = b"
proof -
  have l: "length b = 24" using assms by (simp add: Decode_def bwSampleSize_def split: if_splits)
  have s: "s = \<lparr>Ts = Unix0 (load64 (take 8 b)), BytesUp = load64 (take 8 (drop 8 b)),
      BytesDown = load64 (take 8 (drop 16 b))\<rparr>"
    using assms l by (simp add: Decode_def bwSampleSize_def)
  have "Encode s = take 8 b @ take 8 (drop 8 b) @ take 8 (drop 16 b)"
    using l by (simp add: s Encode_def UnixNano_def Unix0_def store_load64)
  also have "\<dots> = take 8 b @ take 8 (drop 8 b) @ drop 8 (drop 8 b)"
    using l by simp
  also have "\<dots> = take 8 b @ drop 8 b"
    by (simp only: append_take_drop_id)
  also have "\<dots> = b"
    by (simp only: append_take_drop_id)
  finally show ?thesis .
qed

lemma sint_in_range:
  fixes t :: int
  assumes "- (2 ^ 63) \<le> t" "t < 2 ^ 63"
  shows "sint (word_of_int t :: 64 word) = t"
proof -
  have "sint (word_of_int t :: 64 word) = signed_take_bit 63 t"
    by (simp add: sint_sbintrunc')
  also have "\<dots> = t"
    using assms by (rule signed_take_bit_int_eq_self)
  finally show ?thesis .
qed

lemma sint_out_of_range:
  fixes t :: int
  assumes "sint (word_of_int t :: 64 word) = t"
  shows "- (2 ^ 63) \<le> t \<and> t < 2 ^ 63"
  using sint_greater_eq [of "word_of_int t :: 64 word"] sint_less [of "word_of_int t :: 64 word"]
  unfolding assms by simp

lemma Unix0_UnixNano:
  "- (2 ^ 63) \<le> t \<Longrightarrow> t < 2 ^ 63 \<Longrightarrow> Unix0 (UnixNano t) = t"
  by (simp only: Unix0_def UnixNano_def sint_in_range)

lemma Decode_length:
  "(Decode b = Inl errInvalidBufferSize) = (length b \<noteq> 24)"
  "(\<exists>s. Decode b = Inr s) = (length b = 24)"
  by (simp_all add: Decode_def bwSampleSize_def)

text \<open>
  Claim C5, as amended. \<open>Decode (Encode s)\<close> always succeeds and gives back the byte
  counts of \<open>s\<close>; it gives back \<open>s\<close> itself exactly when the timestamp of \<open>s\<close> is in the
  range of an int64 of nanoseconds (otherwise the timestamp comes back wrapped).
  \<open>Decode\<close> fails with \<open>errInvalidBufferSize\<close> exactly on the buffers whose length is
  not 24, and succeeds on every buffer of 24 bytes.
\<close>

theorem Decode_Encode_roundtrip:
  "(Decode (Encode s) = Inr s) = (- (2 ^ 63) \<le> Ts s \<and> Ts s < 2 ^ 63)
   \<and> Decode (Encode s) = Inr (s\<lparr>Ts := Unix0 (UnixNano (Ts s))\<rparr>)
   \<and> (Decode b = Inl errInvalidBufferSize) = (length b \<noteq> 24)
   \<and> (\<exists>s'. Decode b = Inr s') = (length b = 24)"
proof -
  have d: "Decode (Encode s) = Inr (s\<lparr>Ts := Unix0 (UnixNano (Ts s))\<rparr>)"
    by (simp add: Decode_Encode Unix0_def UnixNano_def)
  have "(s\<lparr>Ts := Unix0 (UnixNano (Ts s))\<rparr> = s) = (Unix0 (UnixNano (Ts s)) = Ts s)"
    by (cases s) simp
  also have "\<dots> = (- (2 ^ 63) \<le> Ts s \<and> Ts s < 2 ^ 63)"
    using sint_out_of_range [of "Ts s"] sint_in_range [of "Ts s"]
    unfolding Unix0_def UnixNano_def by blast
  finally have "(Decode (Encode s) = Inr s) = (- (2 ^ 63) \<le> Ts s \<and> Ts s < 2 ^ 63)"
    by (simp add: d)
  then show ?thesis using d Decode_length [of b] by blast
qed

text \<open>A sample of March 15, 2016 comes back; a buffer of three bytes is refused.\<close>

theorem Decode_Encode_roundtrip_witness:
  "Decode (Encode \<lparr>Ts = 1458000000000000000, BytesUp = 5, BytesDown = 7\<rparr>)
     = Inr \<lparr>Ts = 1458000000000000000, BytesUp = 5, BytesDown = 7\<rparr>
   \<and> Decode [1, 2, 3] = Inl errInvalidBufferSize"
  using Decode_Encode_roundtrip
    [of "\<lparr>Ts = 1458000000000000000, BytesUp = 5, BytesDown = 7\<rparr>" "[1, 2, 3]"]
  by simp

text \<open>
  Claim C5 as it was stated fails for the sample \<open>NewBwSample\<close> makes: its timestamp
  is the zero time, which no int64 of nanoseconds holds, and it comes back as an instant
  of the year 1754.
\<close>

theorem Decode_Encode_counterexample:
  "Decode (Encode NewBwSample) = Inr \<lparr>Ts = - 6795364578871345152, BytesUp = 0, BytesDown = 0\<rparr>
   \<and> Decode (Encode NewBwSample) \<noteq> Inr NewBwSample"
proof -
  have "sint (word_of_int (- 62135596800000000000) :: 64 word) = - 6795364578871345152"
    by simp
  then have "Decode (Encode NewBwSample)
      = Inr \<lparr>Ts = - 6795364578871345152, BytesUp = 0, BytesDown = 0\<rparr>"
    by (simp add: Decode_Encode NewBwSample_def zeroTime_def time_Second_def)
  then show ?thesis by (simp add: NewBwSample_def zeroTime_def time_Second_def)
qed

section \<open>The store: lookups after updates\<close>

lemma map_of_bucket_put: "map_of (bucket_put k v es) = (map_of es)(k \<mapsto> v)"
  by (induction es) auto

lemma map_of_bucket_delete: "map_of (bucket_delete k es) = (map_of es)(k := None)"
  by (induction es) (auto simp: bucket_delete_def)

lemma set_bucket_delete: "set (bucket_delete k es) = {e \<in> set es. fst e \<noteq> k}"
  by (auto simp: bucket_delete_def)

lemma entries_Put_other: "n' \<noteq> n \<Longrightarrow> entries (Put tx n k v) n' = entries tx n'"
  by (simp add: entries_def Put_def)

lemma entries_Delete_other: "n' \<noteq> n \<Longrightarrow> entries (Delete tx n k) n' = entries tx n'"
  by (simp add: entries_def Delete_def)

lemma entries_Delete: "entries (Delete tx n k) n = bucket_delete k (entries tx n)"
  by (cases "tx n") (simp_all add: entries_def Delete_def bucket_delete_def)

lemma entries_Create_other: "n' \<noteq> n \<Longrightarrow> entries (CreateBucketIfNotExists tx n) n' = entries tx n'"
  by (cases "tx n") (simp_all add: entries_def CreateBucketIfNotExists_def)

lemma entries_Create: "entries (CreateBucketIfNotExists tx n) n' = entries tx n'"
  by (cases "tx n") (simp_all add: entries_def CreateBucketIfNotExists_def)



lemma Create_keeps: "tx n' \<noteq> None \<Longrightarrow> CreateBucketIfNotExists tx n n' = tx n'"
  by (cases "tx n") (auto simp: CreateBucketIfNotExists_def)


lemma Get_Put:
  "Get (Put tx n k v) n' k' =
     (if n' = n \<and> k' = k \<and> tx n \<noteq> None then Some v else Get tx n' k')"
  by (cases "tx n") (auto simp: Get_def Put_def entries_def map_of_bucket_put)

lemma Put_other: "n' \<noteq> n \<Longrightarrow> Put tx n k v n' = tx n'"
  by (simp add: Put_def)

lemma Put_exists: "(Put tx n k v n' = None) = (tx n' = None)"
  by (simp add: Put_def)

lemma Delete_other: "n' \<noteq> n \<Longrightarrow> Delete tx n k n' = tx n'"
  by (simp add: Delete_def)

lemma Delete_exists: "(Delete tx n k n' = None) = (tx n' = None)"
  by (simp add: Delete_def)

lemma updateVal_absent:
  "Get tx bkt key = None \<Longrightarrow> updateVal tx bkt key s = Inr (Put tx bkt key (Encode s))"
  by (simp add: updateVal_def)

lemma updateVal_present:
  "Get tx bkt key = Some v \<Longrightarrow> Decode v = Inr sold
   \<Longrightarrow> updateVal tx bkt key s = Inr (Put tx bkt key (Encode (BWSample_Add sold s)))"
  by (simp add: updateVal_def)

lemma updateVal_corrupt:
  "Get tx bkt key = Some v \<Longrightarrow> length v \<noteq> 24
   \<Longrightarrow> updateVal tx bkt key s = Inl errInvalidBufferSize"
  by (simp add: updateVal_def Decode_def bwSampleSize_def)

lemma updateVal_cases:
  assumes "updateVal tx bkt key s = Inr tx'"
  obtains v where "tx' = Put tx bkt key v"
  using assms by (auto simp: updateVal_def split: option.splits sum.splits)

lemma updateVal_other: "updateVal tx bkt key s = Inr tx' \<Longrightarrow> n \<noteq> bkt \<Longrightarrow> tx' n = tx n"
  by (erule updateVal_cases) (simp add: Put_other)

lemma updateVal_exists: "updateVal tx bkt key s = Inr tx' \<Longrightarrow> (tx' n = None) = (tx n = None)"
  by (erule updateVal_cases) (simp add: Put_exists)

lemma updateVal_Get_other:
  "updateVal tx bkt key s = Inr tx' \<Longrightarrow> n \<noteq> bkt \<or> k \<noteq> key \<Longrightarrow> Get tx' n k = Get tx n k"
  by (erule updateVal_cases) (auto simp: Get_Put)

lemma Encode_wrapped:
  "Encode (BWSample_Add (a\<lparr>Ts := sint (word_of_int (Ts a) :: 64 word)\<rparr>) s) = Encode (BWSample_Add a s)"
  by (simp add: Encode_def BWSample_Add_def UnixNano_def)

lemma updateVal_encoded:
  assumes "Get tx bkt key = Some (Encode a)"
  shows "updateVal tx bkt key s = Inr (Put tx bkt key (Encode (BWSample_Add a s)))"
  using updateVal_present [OF assms Decode_Encode] by (simp add: Encode_wrapped)

section \<open>Insert-or-sum\<close>

lemma written_Cons:
  "written ((b', k', s) # ops) bkt key =
     (if b' = bkt \<and> k' = key then s # written ops bkt key else written ops bkt key)"
  by (simp add: written_def)

lemma updateVals_present:
  assumes "updateVals tx ops = Inr tx'" "Get tx bkt key = Some (Encode acc)"
  shows "Get tx' bkt key = Some (Encode
           (acc\<lparr>BytesUp := BytesUp acc + sum_list (map BytesUp (written ops bkt key)),
                BytesDown := BytesDown acc + sum_list (map BytesDown (written ops bkt key))\<rparr>))"
  using assms
proof (induction ops arbitrary: tx acc)
  case Nil
  then show ?case by (simp add: written_def)
next
  case (Cons op ops)
  obtain b' k' s where op: "op = (b', k', s)" by (cases op)
  from Cons.prems(1) obtain tx1 where u: "updateVal tx b' k' s = Inr tx1"
    and r: "updateVals tx1 ops = Inr tx'"
    by (auto simp: op split: sum.splits)
  show ?case
  proof (cases "b' = bkt \<and> k' = key")
    case True
    have ex: "tx bkt \<noteq> None"
      using Cons.prems(2) by (auto simp: Get_def entries_def split: option.splits)
    have "tx1 = Put tx bkt key (Encode (BWSample_Add acc s))"
      using u updateVal_encoded [OF Cons.prems(2), of s] True by simp
    then have g: "Get tx1 bkt key = Some (Encode (BWSample_Add acc s))"
      using ex by (simp add: Get_Put)
    show ?thesis
      using Cons.IH [OF r g] True
      by (simp add: op written_Cons BWSample_Add_def add.assoc)
  next
    case False
    then have "Get tx1 bkt key = Some (Encode acc)"
      using updateVal_Get_other [OF u, of bkt key] Cons.prems(2) by auto
    from Cons.IH [OF r this] False show ?thesis
      by (auto simp: op written_Cons)
  qed
qed

lemma updateVals_absent:
  assumes "updateVals tx ops = Inr tx'" "tx bkt \<noteq> None" "Get tx bkt key = None"
    "written ops bkt key \<noteq> []"
  shows "Get tx' bkt key = Some (Encode
           \<lparr>Ts = Ts (hd (written ops bkt key)),
            BytesUp = sum_list (map BytesUp (written ops bkt key)),
            BytesDown = sum_list (map BytesDown (written ops bkt key))\<rparr>)"
  using assms
proof (induction ops arbitrary: tx)
  case Nil
  then show ?case by (simp add: written_def)
next
  case (Cons op ops)
  obtain b' k' s where op: "op = (b', k', s)" by (cases op)
  from Cons.prems(1) obtain tx1 where u: "updateVal tx b' k' s = Inr tx1"
    and r: "updateVals tx1 ops = Inr tx'"
    by (auto simp: op split: sum.splits)
  show ?case
  proof (cases "b' = bkt \<and> k' = key")
    case True
    have "tx1 = Put tx bkt key (Encode s)"
      using u updateVal_absent [OF Cons.prems(3), of s] True by simp
    then have g: "Get tx1 bkt key = Some (Encode s)"
      using Cons.prems(2) by (simp add: Get_Put)
    have eq: "s\<lparr>BytesUp := BytesUp s + sum_list (map BytesUp (written ops bkt key)),
            BytesDown := BytesDown s + sum_list (map BytesDown (written ops bkt key))\<rparr>
        = \<lparr>Ts = Ts s, BytesUp = BytesUp s + sum_list (map BytesUp (written ops bkt key)),
            BytesDown = BytesDown s + sum_list (map BytesDown (written ops bkt key))\<rparr>"
      by (cases s) simp
    have w: "written (op # ops) bkt key = s # written ops bkt key"
      using True by (simp add: op written_Cons)
    show ?thesis
      using updateVals_present [OF r g] unfolding eq w by simp
  next
    case False
    have g: "Get tx1 bkt key = None"
      using updateVal_Get_other [OF u, of bkt key] Cons.prems(3) False by auto
    have e: "tx1 bkt \<noteq> None" using updateVal_exists [OF u, of bkt] Cons.prems(2) by simp
    have w: "written ops bkt key \<noteq> []" using Cons.prems(4) False by (auto simp: op written_Cons)
    from Cons.IH [OF r e g w] False show ?thesis
      by (auto simp: op written_Cons)
  qed
qed

text \<open>
  Claim C2, as amended. When a run of insert-or-sum operations starts with no entry at a
  key of a bucket and writes at least one sample there, the value stored at the key in
  the end decodes to a sample whose byte counts are the sums (uint64, wrapping) of the
  byte counts of the samples written to that bucket and key, and whose timestamp is the
  timestamp of the first of them, as \<open>Encode\<close> keeps it.
\<close>

theorem updateVal_sums:
  assumes "updateVals tx ops = Inr tx'" and "tx bkt \<noteq> None" and "Get tx bkt key = None"
    and "written ops bkt key \<noteq> []"
  shows "\<exists>v a. Get tx' bkt key = Some v \<and> Decode v = Inr a
       \<and> BytesUp a = sum_list (map BytesUp (written ops bkt key))
       \<and> BytesDown a = sum_list (map BytesDown (written ops bkt key))
       \<and> Ts a = Unix0 (UnixNano (Ts (hd (written ops bkt key))))
       \<and> (- (2 ^ 63) \<le> Ts (hd (written ops bkt key)) \<and> Ts (hd (written ops bkt key)) < 2 ^ 63
            \<longrightarrow> Ts a = Ts (hd (written ops bkt key)))"
proof -
  let ?w = "written ops bkt key"
  let ?s = "\<lparr>Ts = Ts (hd ?w), BytesUp = sum_list (map BytesUp ?w),
             BytesDown = sum_list (map BytesDown ?w)\<rparr>"
  have g: "Get tx' bkt key = Some (Encode ?s)" by (rule updateVals_absent [OF assms])
  have d: "Decode (Encode ?s) = Inr (?s\<lparr>Ts := Unix0 (UnixNano (Ts (hd ?w)))\<rparr>)"
    by (simp add: Decode_Encode Unix0_def UnixNano_def)
  have r: "- (2 ^ 63) \<le> Ts (hd ?w) \<and> Ts (hd ?w) < 2 ^ 63
      \<longrightarrow> Unix0 (UnixNano (Ts (hd ?w))) = Ts (hd ?w)"
    using Unix0_UnixNano by blast
  show ?thesis using g d r by simp
qed

lemma updateVal_example1:
  "updateVal [bktMin \<mapsto> []] bktMin ''031520160000''
     \<lparr>Ts = 1458000001000000000, BytesUp = 1, BytesDown = 10\<rparr>
   = Inr [bktMin \<mapsto> [(''031520160000'',
            Encode \<lparr>Ts = 1458000001000000000, BytesUp = 1, BytesDown = 10\<rparr>)]]"
  apply (simp add: updateVal_def Get_def entries_def)
  apply (simp add: Put_def)
  done

lemma updateVal_example2:
  "updateVal [bktMin \<mapsto> [(''031520160000'',
       Encode \<lparr>Ts = 1458000001000000000, BytesUp = 1, BytesDown = 10\<rparr>)]] bktMin ''031520160000''
     \<lparr>Ts = 1458000002000000000, BytesUp = 2, BytesDown = 20\<rparr>
   = Inr [bktMin \<mapsto> [(''031520160000'',
            Encode \<lparr>Ts = 1458000001000000000, BytesUp = 3, BytesDown = 30\<rparr>)]]"
  apply (simp add: updateVal_def Get_def entries_def Decode_Encode)
  apply (simp add: Put_def BWSample_Add_def)
  done

lemma updateVals_example:
  "updateVals [bktMin \<mapsto> []]
     [(bktMin, ''031520160000'', \<lparr>Ts = 1458000001000000000, BytesUp = 1, BytesDown = 10\<rparr>),
      (bktMin, ''031520160000'', \<lparr>Ts = 1458000002000000000, BytesUp = 2, BytesDown = 20\<rparr>)]
   = Inr [bktMin \<mapsto> [(''031520160000'',
            Encode \<lparr>Ts = 1458000001000000000, BytesUp = 3, BytesDown = 30\<rparr>)]]"
  by (simp add: updateVal_example1 updateVal_example2)

text \<open>
  Two samples of the same minute, one and two seconds after midnight of March 15, 2016:
  the entry holds the sums, with the timestamp of the first.
\<close>

theorem updateVal_sums_witness:
  "\<exists>v a. Get [bktMin \<mapsto> [(''031520160000'',
              Encode \<lparr>Ts = 1458000001000000000, BytesUp = 3, BytesDown = 30\<rparr>)]]
            bktMin ''031520160000'' = Some v
     \<and> Decode v = Inr a \<and> BytesUp a = 3 \<and> BytesDown a = 30 \<and> Ts a = 1458000001000000000"
proof -
  let ?ops = "[(bktMin, ''031520160000'', \<lparr>Ts = 1458000001000000000, BytesUp = 1, BytesDown = 10\<rparr>),
      (bktMin, ''031520160000'', \<lparr>Ts = 1458000002000000000, BytesUp = 2, BytesDown = 20\<rparr>)]"
  have e: "[bktMin \<mapsto> []] bktMin \<noteq> (None :: bucket option)" by simp
  have a: "Get [bktMin \<mapsto> []] bktMin ''031520160000'' = None"
    by (simp add: Get_def entries_def)
  have w: "written ?ops bktMin ''031520160000''
      = [\<lparr>Ts = 1458000001000000000, BytesUp = 1, BytesDown = 10\<rparr>,
         \<lparr>Ts = 1458000002000000000, BytesUp = 2, BytesDown = 20\<rparr>]"
    by (simp add: written_def)
  have n: "written ?ops bktMin ''031520160000'' \<noteq> []" by (simp add: w)
  from updateVal_sums [OF updateVals_example e a n]
  show ?thesis unfolding w by (simp add: Unix0_def UnixNano_def)
qed

text \<open>
  Claim C2 as it was stated gives the entry the timestamp of the latest sample. In the
  run above the second sample is the later one, and the entry keeps the timestamp of
  the first: \<open>updateVal\<close> adds into the stored sample, and \<open>BWSample.Add\<close> leaves
  \<open>Ts\<close> alone.
\<close>

theorem updateVal_sums_counterexample:
  "updateVals [bktMin \<mapsto> []]
     [(bktMin, ''031520160000'', \<lparr>Ts = 1458000001000000000, BytesUp = 1, BytesDown = 10\<rparr>),
      (bktMin, ''031520160000'', \<lparr>Ts = 1458000002000000000, BytesUp = 2, BytesDown = 20\<rparr>)]
   = Inr [bktMin \<mapsto> [(''031520160000'',
            Encode \<lparr>Ts = 1458000001000000000, BytesUp = 3, BytesDown = 30\<rparr>)]]
   \<and> Decode (Encode \<lparr>Ts = 1458000001000000000, BytesUp = 3, BytesDown = 30\<rparr>)
       = Inr \<lparr>Ts = 1458000001000000000, BytesUp = 3, BytesDown = 30\<rparr>"
  by (rule conjI [OF updateVals_example]) (simp add: Decode_Encode)

section \<open>Sum-and-shift with an empty source\<close>

lemma BWSample_Add_zero: "BWSample_Add a NewBwSample = a"
  by (simp add: BWSample_Add_def NewBwSample_def)

lemma sumAndShift_no_source:
  "entries tx pullBkt = [] \<Longrightarrow>
   sumAndShift seen tx pullBkt putBkt putKey = updateVal tx putBkt putKey NewBwSample"
  by (simp add: sumAndShift_def)

text \<open>
  Claim C4, as amended. With an empty source bucket, sum-and-shift is the insert-or-sum
  of the sample \<open>NewBwSample\<close> makes (zero byte counts, the zero time) into the
  destination at the key: when the key is absent, an entry holding the encoding of that
  sample is created there and nothing else changes; when the key holds a value of 24
  bytes, every lookup in the store gives what it gave before; when it holds a value of
  another length, the call fails with \<open>errInvalidBufferSize\<close>.
\<close>

theorem sumAndShift_empty:
  assumes "entries tx pullBkt = []"
  shows "sumAndShift seen tx pullBkt putBkt putKey = updateVal tx putBkt putKey NewBwSample
       \<and> (tx putBkt \<noteq> None \<and> Get tx putBkt putKey = None \<longrightarrow>
            (\<exists>tx'. sumAndShift seen tx pullBkt putBkt putKey = Inr tx'
               \<and> Get tx' putBkt putKey = Some (Encode NewBwSample)
               \<and> (\<forall>n k. n \<noteq> putBkt \<or> k \<noteq> putKey \<longrightarrow> Get tx' n k = Get tx n k)))
       \<and> (\<forall>v. Get tx putBkt putKey = Some v \<and> length v = 24 \<longrightarrow>
            (\<exists>tx'. sumAndShift seen tx pullBkt putBkt putKey = Inr tx'
               \<and> (\<forall>n k. Get tx' n k = Get tx n k)))
       \<and> (\<forall>v. Get tx putBkt putKey = Some v \<and> length v \<noteq> 24 \<longrightarrow>
            sumAndShift seen tx pullBkt putBkt putKey = Inl errInvalidBufferSize)"
proof -
  note e = sumAndShift_no_source [OF assms, of seen putBkt putKey]
  have absent: "\<exists>tx'. sumAndShift seen tx pullBkt putBkt putKey = Inr tx'
               \<and> Get tx' putBkt putKey = Some (Encode NewBwSample)
               \<and> (\<forall>n k. n \<noteq> putBkt \<or> k \<noteq> putKey \<longrightarrow> Get tx' n k = Get tx n k)"
    if "tx putBkt \<noteq> None \<and> Get tx putBkt putKey = None"
  proof -
    have "sumAndShift seen tx pullBkt putBkt putKey = Inr (Put tx putBkt putKey (Encode NewBwSample))"
      using that by (simp add: e updateVal_absent)
    then show ?thesis using that by (auto simp: Get_Put)
  qed
  have present: "\<exists>tx'. sumAndShift seen tx pullBkt putBkt putKey = Inr tx'
               \<and> (\<forall>n k. Get tx' n k = Get tx n k)"
    if "Get tx putBkt putKey = Some v \<and> length v = 24" for v
  proof -
    from that obtain a where d: "Decode v = Inr a" using Decode_length(2) [of v] by auto
    have "sumAndShift seen tx pullBkt putBkt putKey = Inr (Put tx putBkt putKey v)"
      using that updateVal_present [OF _ d, of tx putBkt putKey NewBwSample]
      by (simp add: e BWSample_Add_zero Encode_Decode [OF d])
    then show ?thesis using that by (auto simp: Get_Put)
  qed
  have corrupt: "sumAndShift seen tx pullBkt putBkt putKey = Inl errInvalidBufferSize"
    if "Get tx putBkt putKey = Some v \<and> length v \<noteq> 24" for v
    using that by (simp add: e updateVal_corrupt)
  show ?thesis using e absent present corrupt by blast
qed

lemma sumAndShift_example:
  "sumAndShift (seesAll bktMin) [bktMin \<mapsto> [], bktHour \<mapsto> []] bktMin bktHour ''0315201600''
     = Inr [bktMin \<mapsto> [], bktHour \<mapsto> [(''0315201600'', Encode NewBwSample)]]"
proof -
  have "sumAndShift (seesAll bktMin) [bktMin \<mapsto> [], bktHour \<mapsto> []] bktMin bktHour ''0315201600''
      = Inr (Put [bktMin \<mapsto> [], bktHour \<mapsto> []] bktHour ''0315201600'' (Encode NewBwSample))"
    by (simp add: sumAndShift_def entries_def updateVal_def Get_def)
  then show ?thesis by (simp add: Put_def)
qed

text \<open>From two empty buckets: the hour bucket gets an entry for the zero sample.\<close>

theorem sumAndShift_empty_witness:
  "sumAndShift (seesAll bktMin) [bktMin \<mapsto> [], bktHour \<mapsto> []] bktMin bktHour ''0315201600''
     = updateVal [bktMin \<mapsto> [], bktHour \<mapsto> []] bktHour ''0315201600'' NewBwSample
   \<and> (\<exists>tx'. sumAndShift (seesAll bktMin) [bktMin \<mapsto> [], bktHour \<mapsto> []] bktMin bktHour ''0315201600'' = Inr tx'
         \<and> Get tx' bktHour ''0315201600'' = Some (Encode NewBwSample))"
proof -
  have e: "entries [bktMin \<mapsto> [], bktHour \<mapsto> []] bktMin = []" by (simp add: entries_def)
  have a: "[bktMin \<mapsto> [], bktHour \<mapsto> []] bktHour \<noteq> (None :: bucket option)
      \<and> Get [bktMin \<mapsto> [], bktHour \<mapsto> []] bktHour ''0315201600'' = None"
    by (simp add: Get_def entries_def)
  from sumAndShift_empty [OF e, of "seesAll bktMin" bktHour "''0315201600''"] a
  show ?thesis by blast
qed

text \<open>
  Claim C4 as it was stated says the destination is left as it is. With an empty minute
  bucket and an empty hour bucket, sum-and-shift creates an entry at the key of the hour
  bucket: \<open>updateVal\<close> is called whether or not the loop has seen an entry.
\<close>

theorem sumAndShift_empty_counterexample:
  "sumAndShift (seesAll bktMin) [bktMin \<mapsto> [], bktHour \<mapsto> []] bktMin bktHour ''0315201600''
     = Inr [bktMin \<mapsto> [], bktHour \<mapsto> [(''0315201600'', Encode NewBwSample)]]
   \<and> Get [bktMin \<mapsto> [], bktHour \<mapsto> []] bktHour ''0315201600'' = None
   \<and> Get [bktMin \<mapsto> [], bktHour \<mapsto> [(''0315201600'', Encode NewBwSample)]] bktHour ''0315201600''
       = Some (Encode NewBwSample)"
  by (rule conjI [OF sumAndShift_example]) (simp add: Get_def entries_def)

section \<open>Time: truncation to the hour, the day and the month\<close>

lemma div_bounds:
  fixes x n :: int
  assumes "0 < n"
  shows "n * (x div n) \<le> x" "x < n * (x div n) + n"
proof -
  have "x = n * (x div n) + x mod n" by simp
  moreover have "0 \<le> x mod n" "x mod n < n" using assms by simp_all
  ultimately show "n * (x div n) \<le> x" "x < n * (x div n) + n" by linarith+
qed

lemma div_eqI:
  fixes x n q :: int
  assumes "n * q \<le> x" "x < n * q + n"
  shows "x div n = q"
proof -
  have "0 \<le> x - n * q" "x - n * q < n" using assms by linarith+
  moreover have "x = n * q + (x - n * q)" by simp
  ultimately show ?thesis by (metis int_div_pos_eq)
qed

lemma year_of_era_bounds:
  assumes doe: "0 \<le> doe" "doe < 146097" and yd: "year_of_era doe = (yoe, doy)"
  shows "0 \<le> yoe \<and> yoe < 400 \<and> 0 \<le> doy \<and> doy < 366
    \<and> yoe * 365 + yoe div 4 - yoe div 100 + doy = doe"
proof -
  define n100 where "n100 = min 3 (doe div 36524)"
  define r100 where "r100 = doe - 36524 * n100"
  define n4 where "n4 = r100 div 1461"
  define r4 where "r4 = r100 - 1461 * n4"
  define n1 where "n1 = min 3 (r4 div 365)"
  have yoe: "yoe = 100 * n100 + 4 * n4 + n1" and doy: "doy = r4 - 365 * n1"
    using yd by (simp_all add: year_of_era_def Let_def n100_def r100_def n4_def r4_def n1_def)
  have q0: "0 \<le> doe div 36524" using doe by (simp add: pos_imp_zdiv_nonneg_iff)
  have n100: "0 \<le> n100" "n100 \<le> 3" using q0 by (simp_all add: n100_def)
  have r100: "0 \<le> r100" "r100 \<le> 36524"
    using doe div_bounds [of 36524 doe] unfolding r100_def n100_def min_def
    by (simp_all split: if_splits)
  have n4: "0 \<le> n4" "n4 \<le> 24"
    using r100 div_bounds [of 1461 r100] unfolding n4_def by linarith+
  have r4: "0 \<le> r4" "r4 \<le> 1460"
    using div_bounds [of 1461 r100] unfolding r4_def n4_def by linarith+
  have q1: "0 \<le> r4 div 365" using r4 by (simp add: pos_imp_zdiv_nonneg_iff)
  have n1: "0 \<le> n1" "n1 \<le> 3" using q1 by (simp_all add: n1_def)
  have d: "0 \<le> doy" "doy < 366"
    using r4 div_bounds [of 365 r4] unfolding doy n1_def min_def
    by (simp_all split: if_splits)
  have q4: "yoe div 4 = 25 * n100 + n4"
    by (rule div_eqI) (use n1 in \<open>simp_all add: yoe\<close>)
  have q100: "yoe div 100 = n100"
    by (rule div_eqI) (use n1 n4 in \<open>simp_all add: yoe\<close>)
  have "yoe * 365 + yoe div 4 - yoe div 100 + doy = doe"
    unfolding q4 q100 unfolding yoe doy r4_def r100_def by simp
  moreover have "0 \<le> yoe" "yoe < 400" unfolding yoe using n100 n4 n1 by simp_all
  ultimately show ?thesis using d by simp
qed

lemma days_from_civil_roundtrip: "days_from_civil (fst (civil_from_days z)) (fst (snd (civil_from_days z))) (snd (snd (civil_from_days z))) = z"
proof -
  define zz where "zz = z + 719468"
  define era where "era = zz div 146097"
  define doe where "doe = zz mod 146097"
  obtain yoe doy where yd: "year_of_era doe = (yoe, doy)" by (cases "year_of_era doe")
  have doe: "0 \<le> doe" "doe < 146097" by (simp_all add: doe_def)
  note b = year_of_era_bounds [OF doe yd]
  define mp where "mp = (5 * doy + 2) div 153"
  define d where "d = doy - (153 * mp + 2) div 5 + 1"
  define m where "m = (if mp < 10 then mp + 3 else mp - 9)"
  define y where "y = (if m \<le> 2 then yoe + era * 400 + 1 else yoe + era * 400)"
  have c: "civil_from_days z = (y, m, d)"
    using yd by (simp add: civil_from_days_def Let_def zz_def era_def doe_def mp_def d_def m_def y_def)
  have mp: "0 \<le> mp" "mp \<le> 11"
    using b div_bounds [of 153 "5 * doy + 2"] unfolding mp_def by linarith+
  have m3: "(if m > 2 then m - 3 else m + 9) = mp" using mp by (simp add: m_def)
  have y': "(if m \<le> 2 then y - 1 else y) = yoe + era * 400" by (simp add: y_def)
  have e: "(yoe + era * 400) div 400 = era" by (rule div_eqI) (use b in simp_all)
  have f: "(yoe + era * 400) mod 400 = yoe" using b by simp
  have "days_from_civil y m d = era * 146097 + doe - 719468"
    unfolding days_from_civil_def Let_def m3 y' e f using b by (simp add: d_def)
  also have "\<dots> = z" by (simp add: era_def doe_def zz_def)
  finally show ?thesis by (simp add: c)
qed

lemma civil_of_time:
  "days_from_civil (Year t) (Month t) (Day t) = unixDays t"
  unfolding Year_def Month_def Day_def by (rule days_from_civil_roundtrip)

lemma time_Hour_pos: "0 < time_Hour"
  by (simp add: time_Hour_def time_Minute_def time_Second_def)

lemma reparse_hourFmt:
  assumes "0 \<le> Year t" "Year t \<le> 9999"
  shows "reparse hourFmt t = start_of_hour t"
proof -
  define q where "q = t div time_Hour"
  have d: "unixDays t = q div 24"
    unfolding unixDays_def q_def using time_Hour_pos
    by (simp add: zdiv_zmult2_eq mult.commute)
  have "reparse hourFmt t = (unixDays t * 24 + Hour t) * time_Hour"
    using assms by (simp add: reparse_def hourFmt_def Date_def civil_of_time)
  also have "\<dots> = (q div 24 * 24 + q mod 24) * time_Hour"
    by (simp add: d Hour_def q_def)
  also have "\<dots> = q * time_Hour" by simp
  also have "\<dots> = t - t mod time_Hour"
    unfolding q_def by (simp add: minus_mod_eq_div_mult)
  finally show ?thesis by (simp add: start_of_hour_def)
qed

lemma reparse_dayFmt:
  assumes "0 \<le> Year t" "Year t \<le> 9999"
  shows "reparse dayFmt t = start_of_day t"
proof -
  have "reparse dayFmt t = unixDays t * 24 * time_Hour"
    using assms by (simp add: reparse_def dayFmt_def Date_def civil_of_time)
  also have "\<dots> = t div (24 * time_Hour) * (24 * time_Hour)"
    by (simp add: unixDays_def)
  also have "\<dots> = t - t mod (24 * time_Hour)"
    by (simp only: minus_mod_eq_div_mult)
  finally show ?thesis by (simp add: start_of_day_def)
qed

lemma prevHour_eq: "0 \<le> Year t \<Longrightarrow> Year t \<le> 9999 \<Longrightarrow> prevHour t = start_of_hour t + time_Hour"
  by (simp add: prevHour_def reparse_hourFmt)

lemma prevDay_eq: "0 \<le> Year t \<Longrightarrow> Year t \<le> 9999 \<Longrightarrow> prevDay t = start_of_day t + 24 * time_Hour"
  by (simp add: prevDay_def reparse_dayFmt)

lemma prevMon_eq: "1 \<le> Year t \<Longrightarrow> Year t \<le> 9999 \<Longrightarrow> prevMon t = start_of_prev_month t"
  by (simp add: prevMon_def parseYearMonth_def start_of_prev_month_def Let_def)

text \<open>
  Beyond the year 9999 the label of a time has a year of five digits, \<open>time.Parse\<close>
  fails and the cutoff of \<open>prevHour\<close> is an hour after the zero time.
\<close>

lemma prevHour_late: "9999 < Year t \<Longrightarrow> prevHour t = zeroTime + time_Hour"
  by (simp add: prevHour_def reparse_def hourFmt_def)

text \<open>The clock of a Location with a fixed offset, and of UTC.\<close>

lemma wallClock_UTC: "wallClock UTC t = t"
  by simp

lemma wallClock_FixedZone: "wallClock (FixedZone offset) t = t + offset * time_Second"
  by (simp add: FixedZone_def)

section \<open>Rebase\<close>

lemma all_at_or_after_mono:
  "all_at_or_after es t \<Longrightarrow> t' \<le> t \<Longrightarrow> all_at_or_after es t'"
  unfolding all_at_or_after_def list_all_iff kept_def
  by (auto split: sum.splits)

text \<open>
  The loop of \<open>shiftIfOlder\<close> leaves other buckets alone, and of the source bucket it
  leaves only entries it has not visited yet or entries not before the cutoff.
\<close>

lemma shiftLoop_other:
  "shiftLoop local tx src dst tc fmt es = Inr tx' \<Longrightarrow> n \<noteq> src \<Longrightarrow> n \<noteq> dst \<Longrightarrow> tx' n = tx n"
proof (induction local tx src dst tc fmt es rule: shiftLoop.induct)
  case (1 local tx src dst tc fmt)
  then show ?case by simp
next
  case (2 local tx src dst tc fmt k v es)
  from "2.prems"(1) obtain s where d: "Decode v = Inr s"
    by (auto split: sum.splits)
  show ?case
  proof (cases "Before (TS s) tc")
    case True
    with "2.prems"(1) d obtain tx1 where u: "updateVal (Delete tx src k) dst (Format (wallClock local (TS s)) fmt) s = Inr tx1"
      and r: "shiftLoop local tx1 src dst tc fmt es = Inr tx'"
      by (auto split: sum.splits)
    have "tx' n = tx1 n" using "2.IH"(1) [OF d True u r "2.prems"(2,3)] .
    also have "\<dots> = Delete tx src k n" using updateVal_other [OF u] "2.prems"(3) by simp
    also have "\<dots> = tx n" using "2.prems"(2) by (simp add: Delete_other)
    finally show ?thesis .
  next
    case False
    with "2.prems"(1) d have r: "shiftLoop local tx src dst tc fmt es = Inr tx'" by simp
    show ?thesis using "2.IH"(2) [OF d False r "2.prems"(2,3)] .
  qed
qed

lemma shiftLoop_source:
  assumes "shiftLoop local tx src dst tc fmt es = Inr tx'" "src \<noteq> dst"
    and "\<forall>e \<in> set (entries tx src). e \<in> set es \<or> kept tc e"
  shows "\<forall>e \<in> set (entries tx' src). kept tc e"
  using assms
proof (induction local tx src dst tc fmt es rule: shiftLoop.induct)
  case (1 local tx src dst tc fmt)
  then show ?case by simp
next
  case (2 local tx src dst tc fmt k v es)
  from "2.prems"(1) obtain s where d: "Decode v = Inr s"
    by (auto split: sum.splits)
  show ?case
  proof (cases "Before (TS s) tc")
    case True
    with "2.prems"(1) d obtain tx1 where u: "updateVal (Delete tx src k) dst (Format (wallClock local (TS s)) fmt) s = Inr tx1"
      and r: "shiftLoop local tx1 src dst tc fmt es = Inr tx'"
      by (auto split: sum.splits)
    have "tx1 src = Delete tx src k src" using updateVal_other [OF u] "2.prems"(2) by simp
    then have "entries tx1 src = bucket_delete k (entries tx src)"
      using entries_Delete [of tx src k] by (simp add: entries_def)
    then have "\<forall>e \<in> set (entries tx1 src). e \<in> set es \<or> kept tc e"
      using "2.prems"(3) by (auto simp: set_bucket_delete)
    from "2.IH"(1) [OF d True u r "2.prems"(2) this] show ?thesis .
  next
    case False
    with "2.prems"(1) d have r: "shiftLoop local tx src dst tc fmt es = Inr tx'" by simp
    have "kept tc (k, v)" using d False by (simp add: kept_def Before_def TS_def)
    then have "\<forall>e \<in> set (entries tx src). e \<in> set es \<or> kept tc e"
      using "2.prems"(3) by auto
    from "2.IH"(2) [OF d False r "2.prems"(2) this] show ?thesis .
  qed
qed

lemma shiftTx_source:
  assumes "shiftTx local src dst tc fmt tx = Inr tx'" "src \<noteq> dst"
  shows "all_at_or_after (entries tx' src) tc"
proof -
  let ?tx2 = "CreateBucketIfNotExists (CreateBucketIfNotExists tx src) dst"
  have l: "shiftLoop local ?tx2 src dst tc fmt (entries ?tx2 src) = Inr tx'"
    using assms(1) by (simp add: shiftTx_def Let_def)
  have "\<forall>e \<in> set (entries tx' src). kept tc e"
    by (rule shiftLoop_source [OF l assms(2)]) simp
  then show ?thesis by (simp add: all_at_or_after_def list_all_iff)
qed

lemma shiftTx_other:
  assumes "shiftTx local src dst tc fmt tx = Inr tx'" "n \<noteq> src" "n \<noteq> dst"
  shows "entries tx' n = entries tx n"
proof -
  let ?tx2 = "CreateBucketIfNotExists (CreateBucketIfNotExists tx src) dst"
  have l: "shiftLoop local ?tx2 src dst tc fmt (entries ?tx2 src) = Inr tx'"
    using assms(1) by (simp add: shiftTx_def Let_def)
  have "tx' n = ?tx2 n" by (rule shiftLoop_other [OF l assms(2,3)])
  then have "entries tx' n = entries ?tx2 n" by (simp add: entries_def)
  then show ?thesis by (simp add: entries_Create)
qed

lemma shiftIfOlder_ok:
  assumes "shiftIfOlder D local src dst tc fmt c = (None, D')"
  shows "shiftTx local src dst tc fmt (db D) = Inr (db D')"
  using assms
  by (auto simp: shiftIfOlder_def Batch_def split: sum.splits if_splits)

lemma Rebase_cutoffs:
  assumes "Rebase D T local c1 c2 c3 = (None, D')"
  shows "all_at_or_after (entries (db D') bktMin) (prevHour T)
       \<and> all_at_or_after (entries (db D') bktHour) (prevDay T)
       \<and> all_at_or_after (entries (db D') bktDay) (prevMon T)"
proof -
  from assms obtain D1 D2 where
    s1: "shiftIfOlder D local bktMin bktHour (prevHour T) hourFmt c1 = (None, D1)" and
    s2: "shiftIfOlder D1 local bktHour bktDay (prevDay T) dayFmt c2 = (None, D2)" and
    s3: "shiftIfOlder D2 local bktDay bktMon (prevMon T) monFmt c3 = (None, D')"
    by (auto simp: Rebase_def split: if_splits prod.splits option.splits)
  note t1 = shiftIfOlder_ok [OF s1] and t2 = shiftIfOlder_ok [OF s2] and t3 = shiftIfOlder_ok [OF s3]
  have "entries (db D') bktMin = entries (db D2) bktMin" using shiftTx_other [OF t3] by simp
  also have "\<dots> = entries (db D1) bktMin" using shiftTx_other [OF t2] by simp
  finally have m: "all_at_or_after (entries (db D') bktMin) (prevHour T)"
    using shiftTx_source [OF t1] by simp
  have "entries (db D') bktHour = entries (db D2) bktHour" using shiftTx_other [OF t3] by simp
  then have h: "all_at_or_after (entries (db D') bktHour) (prevDay T)"
    using shiftTx_source [OF t2] by simp
  have d: "all_at_or_after (entries (db D') bktDay) (prevMon T)"
    using shiftTx_source [OF t3] by simp
  show ?thesis using m h d by simp
qed

text \<open>
  Claim C1, as amended. After a \<open>Rebase\<close> at \<open>T\<close> that returns no error, for \<open>T\<close> in the
  years 1 to 9999, every entry of the minute bucket has a timestamp not before the start
  of the hour of \<open>T\<close>, every entry of the hour bucket a timestamp not before the start of
  the day of \<open>T\<close>, and every entry of the day bucket a timestamp not before the start of
  the month before the month of \<open>T\<close>.
\<close>

theorem Rebase_residency:
  assumes "Rebase D T local c1 c2 c3 = (None, D')" and "1 \<le> Year T" and "Year T \<le> 9999"
  shows "all_at_or_after (entries (db D') bktMin) (start_of_hour T)
       \<and> all_at_or_after (entries (db D') bktHour) (start_of_day T)
       \<and> all_at_or_after (entries (db D') bktDay) (start_of_prev_month T)"
proof -
  note c = Rebase_cutoffs [OF assms(1)]
  have y: "0 \<le> Year T" using assms(2) by simp
  have "start_of_hour T \<le> prevHour T"
    using prevHour_eq [OF y assms(3)] time_Hour_pos by simp
  moreover have "start_of_day T \<le> prevDay T"
    using prevDay_eq [OF y assms(3)] time_Hour_pos by simp
  moreover have "start_of_prev_month T = prevMon T"
    using prevMon_eq [OF assms(2,3)] by simp
  ultimately show ?thesis using c all_at_or_after_mono by metis
qed

section \<open>Equality of stores\<close>

lemma Tx_eq_iff:
  fixes f g :: "bktName \<Rightarrow> 'a"
  shows "(f = g) = (f bktMin = g bktMin \<and> f bktHour = g bktHour \<and> f bktDay = g bktDay \<and> f bktMon = g bktMon)"
proof
  assume "f = g"
  then show "f bktMin = g bktMin \<and> f bktHour = g bktHour \<and> f bktDay = g bktDay \<and> f bktMon = g bktMon"
    by simp
next
  assume a: "f bktMin = g bktMin \<and> f bktHour = g bktHour \<and> f bktDay = g bktDay \<and> f bktMon = g bktMon"
  show "f = g"
  proof
    fix n show "f n = g n" using a by (cases n) simp_all
  qed
qed

section \<open>Out-of-order inserts\<close>


lemma Batch_cases:
  "Batch fn st c = (case fn st of Inl e \<Rightarrow> (Some e, st)
     | Inr st' \<Rightarrow> if c then (None, st') else (Some errStorage, st))"
  by (simp add: Batch_def)





section \<open>The sampler: deltas of the byte counters\<close>

lemma GetStats_read:
  assumes "handles_ready iface rxOpens txOpens"
  shows "GetStats iface rxOpens txOpens (Inr rx) (Inr tx) =
     ((if lastSend iface = 0 then 0 else tx - lastSend iface,
       if lastRecv iface = 0 then 0 else rx - lastRecv iface, None),
      iface\<lparr>fioSend := True, fioRecv := True, lastSend := tx, lastRecv := rx\<rparr>)"
  using assms
  by (auto simp: GetStats_def handles_ready_def reopenInterfaces_def Let_def)

lemma GetStats_no_read_keeps_zero:
  assumes "\<not> reads_both iface (rxOpens, txOpens, rxRead, txRead)"
    and "lastSend iface = 0" "lastRecv iface = 0"
  shows "lastSend (snd (GetStats iface rxOpens txOpens rxRead txRead)) = 0
       \<and> lastRecv (snd (GetStats iface rxOpens txOpens rxRead txRead)) = 0"
  using assms
  by (cases rxRead; cases txRead)
     (auto simp: GetStats_def handles_ready_def reopenInterfaces_def closeInterfaces_def Let_def
           split: if_splits)

lemma no_read_keeps_zero:
  "no_read iface os \<Longrightarrow> lastSend iface = 0 \<Longrightarrow> lastRecv iface = 0
   \<Longrightarrow> lastSend (GetStats_calls iface os) = 0 \<and> lastRecv (GetStats_calls iface os) = 0"
proof (induction os arbitrary: iface)
  case Nil
  then show ?case by simp
next
  case (Cons a os)
  obtain ro to r1 r2 where a: "a = (ro, to, r1, r2)" by (cases a)
  from Cons.prems have nr: "\<not> reads_both iface (ro, to, r1, r2)"
    and rest: "no_read (snd (GetStats iface ro to r1 r2)) os"
    by (simp_all add: a)
  from GetStats_no_read_keeps_zero [OF nr Cons.prems(2,3)] Cons.IH [OF rest]
  show ?case by (simp add: a)
qed

lemma NewIfmon_zero: "lastSend (NewIfmon a b) = 0 \<and> lastRecv (NewIfmon a b) = 0"
  by (simp add: NewIfmon_def reopenInterfaces_def)

lemma closeInterfaces_zero: "lastSend (closeInterfaces j) = 0 \<and> lastRecv (closeInterfaces j) = 0"
  by (simp add: closeInterfaces_def)

text \<open>
  Claim C6, as amended. A \<open>GetStats\<close> call that reads the cumulative values \<open>rx\<close> and
  \<open>tx\<close> returns \<open>tx - lastSend\<close> and \<open>rx - lastRecv\<close> (uint64 subtraction), except
  that a delta whose \<open>last\<close> field was zero at entry is zero; it returns no error and
  leaves \<open>tx\<close> and \<open>rx\<close> in the \<open>last\<close> fields. Hence the first call that reads the
  counters after \<open>NewIfmon\<close>, or after a read failure dropped the handles
  (\<open>closeInterfaces\<close>), returns \<open>(0, 0)\<close>.
\<close>

theorem GetStats_delta:
  assumes "handles_ready iface rxOpens txOpens"
    and "GetStats iface rxOpens txOpens (Inr rx) (Inr tx) = ((sendInt, recvInt, err), iface')"
  shows "sendInt = (if lastSend iface = 0 then 0 else tx - lastSend iface)
       \<and> recvInt = (if lastRecv iface = 0 then 0 else rx - lastRecv iface)
       \<and> err = None \<and> lastSend iface' = tx \<and> lastRecv iface' = rx
       \<and> ((\<exists>a b os. iface = GetStats_calls (NewIfmon a b) os \<and> no_read (NewIfmon a b) os)
            \<longrightarrow> sendInt = 0 \<and> recvInt = 0)
       \<and> ((\<exists>j os. iface = GetStats_calls (closeInterfaces j) os \<and> no_read (closeInterfaces j) os)
            \<longrightarrow> sendInt = 0 \<and> recvInt = 0)"
proof -
  have r: "sendInt = (if lastSend iface = 0 then 0 else tx - lastSend iface)"
      "recvInt = (if lastRecv iface = 0 then 0 else rx - lastRecv iface)"
      "err = None" "lastSend iface' = tx" "lastRecv iface' = rx"
    using assms(2) unfolding GetStats_read [OF assms(1)] by auto
  have z: "sendInt = 0 \<and> recvInt = 0" if "lastSend iface = 0 \<and> lastRecv iface = 0"
    using that r by simp
  have n: "sendInt = 0 \<and> recvInt = 0"
    if "\<exists>a b os. iface = GetStats_calls (NewIfmon a b) os \<and> no_read (NewIfmon a b) os"
    using that no_read_keeps_zero NewIfmon_zero z by blast
  have c: "sendInt = 0 \<and> recvInt = 0"
    if "\<exists>j os. iface = GetStats_calls (closeInterfaces j) os \<and> no_read (closeInterfaces j) os"
    using that no_read_keeps_zero closeInterfaces_zero z by blast
  show ?thesis using r n c by blast
qed

text \<open>
  The two cases at work: a sampler whose files could not be opened at first reads
  \<open>(tx, rx) = (100, 50)\<close> and reports \<open>(0, 0)\<close>; the next read of \<open>(110, 55)\<close>
  reports \<open>(10, 5)\<close>.
\<close>

theorem GetStats_delta_witness:
  "GetStats (GetStats_calls (NewIfmon False False) [(False, True, Inr 7, Inr 9)])
      True True (Inr 50) (Inr 100)
     = ((0, 0, None), \<lparr>fioSend = True, fioRecv = True, lastSend = 100, lastRecv = 50, open_if = True\<rparr>)
   \<and> GetStats \<lparr>fioSend = True, fioRecv = True, lastSend = 100, lastRecv = 50, open_if = True\<rparr>
      True True (Inr 55) (Inr 110)
     = ((10, 5, None), \<lparr>fioSend = True, fioRecv = True, lastSend = 110, lastRecv = 55, open_if = True\<rparr>)"
proof -
  let ?i0 = "GetStats_calls (NewIfmon False False) [(False, True, Inr 7, Inr 9)]"
  let ?i1 = "\<lparr>fioSend = True, fioRecv = True, lastSend = 100, lastRecv = 50, open_if = True\<rparr>"
  have i0: "?i0 = \<lparr>fioSend = False, fioRecv = False, lastSend = 0, lastRecv = 0, open_if = True\<rparr>"
    by (simp add: NewIfmon_def reopenInterfaces_def GetStats_def)
  have h0: "handles_ready ?i0 True True" unfolding i0 by (simp add: handles_ready_def)
  have nr: "no_read (NewIfmon False False) [(False, True, Inr 7, Inr 9)]"
    by (simp add: NewIfmon_def reopenInterfaces_def handles_ready_def)
  obtain a b c d where g0: "GetStats ?i0 True True (Inr 50) (Inr 100) = ((a, b, c), d)"
    by (metis prod_cases3 surj_pair)
  from GetStats_delta [OF h0 g0] nr
  have "a = 0 \<and> b = 0 \<and> c = None \<and> lastSend d = 100 \<and> lastRecv d = 50"
    by blast
  moreover have "d = ?i1" using g0 unfolding GetStats_read [OF h0] unfolding i0 by simp
  ultimately have first: "GetStats ?i0 True True (Inr 50) (Inr 100) = ((0, 0, None), ?i1)"
    using g0 by simp
  have h1: "handles_ready ?i1 True True" by (simp add: handles_ready_def)
  obtain a' b' c' d' where g1: "GetStats ?i1 True True (Inr 55) (Inr 110) = ((a', b', c'), d')"
    by (metis prod_cases3 surj_pair)
  from GetStats_delta [OF h1 g1]
  have "a' = 10 \<and> b' = 5 \<and> c' = None" by simp
  moreover have "d' = \<lparr>fioSend = True, fioRecv = True, lastSend = 110, lastRecv = 55, open_if = True\<rparr>"
    using g1 unfolding GetStats_read [OF h1] by simp
  ultimately show ?thesis using first g1 by simp
qed

text \<open>
  Claim C6 as it was stated also promises \<open>(0, 0)\<close> for the first read after any
  reopen. \<open>Close\<close> drops the handles and keeps the \<open>last\<close> fields; the next
  \<open>GetStats\<close> opens the files again and reports the difference to the values read
  before the \<open>Close\<close>.
\<close>

theorem GetStats_reopen_counterexample:
  "Iface_Close \<lparr>fioSend = True, fioRecv = True, lastSend = 100, lastRecv = 50, open_if = True\<rparr>
      True True
     = (None, \<lparr>fioSend = False, fioRecv = False, lastSend = 100, lastRecv = 50, open_if = False\<rparr>)
   \<and> GetStats \<lparr>fioSend = False, fioRecv = False, lastSend = 100, lastRecv = 50, open_if = False\<rparr>
      True True (Inr 55) (Inr 110)
     = ((10, 5, None), \<lparr>fioSend = True, fioRecv = True, lastSend = 110, lastRecv = 55, open_if = False\<rparr>)"
  by (simp add: Iface_Close_def GetStats_def reopenInterfaces_def)

lemma unat_wrap_sub:
  fixes a b :: "64 word"
  assumes "a < b"
  shows "unat (a - b) = 2 ^ 64 - (unat b - unat a)"
proof -
  have lt: "unat a < unat b" using assms by (simp add: word_less_nat_alt)
  have "unat b < 2 ^ 64" using unsigned_less [of b, where ?'a = nat] by simp
  then show "unat (a - b) = 2 ^ 64 - (unat b - unat a)"
    using lt by (simp add: unat_sub_if')
qed

lemma wrap_delta:
  fixes a b :: "64 word"
  assumes "a \<noteq> 0" "a < b"
  shows "(if b = 0 then 0 else a - b) = a - b \<and> a - b \<noteq> 0
       \<and> unat (a - b) = 2 ^ 64 - (unat b - unat a)
       \<and> 2 ^ 64 - unat b < unat (a - b)
       \<and> (unat b \<le> 2 ^ 63 \<longrightarrow> 2 ^ 63 < unat (a - b))"
proof -
  have nz: "b \<noteq> 0" using assms(2) by auto
  have u: "unat a < unat b" using assms(2) by (simp add: word_less_nat_alt)
  have p: "0 < unat a" using assms(1) by (simp add: unat_gt_0)
  have b: "unat b < 2 ^ 64" using unsigned_less [of b, where ?'a = nat] by simp
  have nz': "a - b \<noteq> 0" using assms(2) by simp
  have e: "unat (a - b) = 2 ^ 64 - (unat b - unat a)" by (rule unat_wrap_sub [OF assms(2)])
  have g: "2 ^ 64 - unat b < unat (a - b)" using e u p b by linarith
  have h: "2 ^ 63 < unat (a - b)" if "unat b \<le> 2 ^ 63" using g that by simp
  show ?thesis using nz nz' e g h by simp
qed

text \<open>
  Claim C10, as amended. When a \<open>GetStats\<close> call reads a counter value that is not zero
  and is smaller than the stored \<open>last\<close> value, the delta of that direction is the
  unsigned difference modulo \<open>2 ^ 64\<close>, that is \<open>2 ^ 64\<close> minus the distance between
  the two values. It is never zero and it is larger than \<open>2 ^ 64\<close> minus the stored
  value: it exceeds \<open>2 ^ 63\<close> when the stored value is at most \<open>2 ^ 63\<close> (a counter that
  was reset), and it is small when the counter has gone round (a stored \<open>2 ^ 64 - 1\<close> and
  a read of 1 give 2).
\<close>

theorem GetStats_wrap:
  assumes "handles_ready iface rxOpens txOpens"
    and "GetStats iface rxOpens txOpens (Inr rx) (Inr tx) = ((sendInt, recvInt, err), iface')"
  shows "(tx \<noteq> 0 \<and> tx < lastSend iface \<longrightarrow>
            sendInt = tx - lastSend iface \<and> sendInt \<noteq> 0
          \<and> unat sendInt = 2 ^ 64 - (unat (lastSend iface) - unat tx)
          \<and> 2 ^ 64 - unat (lastSend iface) < unat sendInt
          \<and> (unat (lastSend iface) \<le> 2 ^ 63 \<longrightarrow> 2 ^ 63 < unat sendInt))
       \<and> (rx \<noteq> 0 \<and> rx < lastRecv iface \<longrightarrow>
            recvInt = rx - lastRecv iface \<and> recvInt \<noteq> 0
          \<and> unat recvInt = 2 ^ 64 - (unat (lastRecv iface) - unat rx)
          \<and> 2 ^ 64 - unat (lastRecv iface) < unat recvInt
          \<and> (unat (lastRecv iface) \<le> 2 ^ 63 \<longrightarrow> 2 ^ 63 < unat recvInt))"
proof -
  have r: "sendInt = (if lastSend iface = 0 then 0 else tx - lastSend iface)"
      "recvInt = (if lastRecv iface = 0 then 0 else rx - lastRecv iface)"
    using assms(2) unfolding GetStats_read [OF assms(1)] by simp_all
  have s: "sendInt = tx - lastSend iface \<and> sendInt \<noteq> 0
          \<and> unat sendInt = 2 ^ 64 - (unat (lastSend iface) - unat tx)
          \<and> 2 ^ 64 - unat (lastSend iface) < unat sendInt
          \<and> (unat (lastSend iface) \<le> 2 ^ 63 \<longrightarrow> 2 ^ 63 < unat sendInt)" if "tx \<noteq> 0 \<and> tx < lastSend iface"
  proof -
    from that have "lastSend iface \<noteq> 0" by auto
    then have e: "sendInt = tx - lastSend iface" using r(1) by simp
    have w: "(if lastSend iface = 0 then 0 else tx - lastSend iface) = tx - lastSend iface
        \<and> tx - lastSend iface \<noteq> 0
        \<and> unat (tx - lastSend iface) = 2 ^ 64 - (unat (lastSend iface) - unat tx)
        \<and> 2 ^ 64 - unat (lastSend iface) < unat (tx - lastSend iface)
        \<and> (unat (lastSend iface) \<le> 2 ^ 63 \<longrightarrow> 2 ^ 63 < unat (tx - lastSend iface))"
      by (rule wrap_delta) (simp_all add: that)
    show ?thesis unfolding e
      apply (insert w)
      apply (elim conjE)
      apply (intro conjI refl)
         apply assumption+
      done
  qed
  have v: "recvInt = rx - lastRecv iface \<and> recvInt \<noteq> 0
          \<and> unat recvInt = 2 ^ 64 - (unat (lastRecv iface) - unat rx)
          \<and> 2 ^ 64 - unat (lastRecv iface) < unat recvInt
          \<and> (unat (lastRecv iface) \<le> 2 ^ 63 \<longrightarrow> 2 ^ 63 < unat recvInt)" if "rx \<noteq> 0 \<and> rx < lastRecv iface"
  proof -
    from that have "lastRecv iface \<noteq> 0" by auto
    then have e: "recvInt = rx - lastRecv iface" using r(2) by simp
    have w: "(if lastRecv iface = 0 then 0 else rx - lastRecv iface) = rx - lastRecv iface
        \<and> rx - lastRecv iface \<noteq> 0
        \<and> unat (rx - lastRecv iface) = 2 ^ 64 - (unat (lastRecv iface) - unat rx)
        \<and> 2 ^ 64 - unat (lastRecv iface) < unat (rx - lastRecv iface)
        \<and> (unat (lastRecv iface) \<le> 2 ^ 63 \<longrightarrow> 2 ^ 63 < unat (rx - lastRecv iface))"
      by (rule wrap_delta) (simp_all add: that)
    show ?thesis unfolding e
      apply (insert w)
      apply (elim conjE)
      apply (intro conjI refl)
         apply assumption+
      done
  qed
  show ?thesis using s v by blast
qed

text \<open>After \<open>(tx, rx) = (100, 50)\<close> a read of \<open>(10, 5)\<close> reports \<open>(2 ^ 64 - 90, 2 ^ 64 - 45)\<close>.\<close>

theorem GetStats_wrap_witness:
  "GetStats \<lparr>fioSend = True, fioRecv = True, lastSend = 100, lastRecv = 50, open_if = True\<rparr>
      True True (Inr 5) (Inr 10)
     = ((18446744073709551526, 18446744073709551571, None),
        \<lparr>fioSend = True, fioRecv = True, lastSend = 10, lastRecv = 5, open_if = True\<rparr>)"
proof -
  let ?i = "\<lparr>fioSend = True, fioRecv = True, lastSend = 100, lastRecv = 50, open_if = True\<rparr>"
  have h: "handles_ready ?i True True" by (simp add: handles_ready_def)
  obtain a b c d where g: "GetStats ?i True True (Inr 5) (Inr 10) = ((a, b, c), d)"
    by (metis prod_cases3 surj_pair)
  from GetStats_wrap [OF h g] have "a = 10 - 100 \<and> b = 5 - 50" by simp
  moreover have "c = None \<and> d = \<lparr>fioSend = True, fioRecv = True, lastSend = 10, lastRecv = 5, open_if = True\<rparr>"
    using g unfolding GetStats_read [OF h] by simp
  ultimately show ?thesis using g by simp
qed

text \<open>
  A counter that has gone round: after \<open>2 ^ 64 - 1\<close> in both directions a read of 1
  reports a delta of 2 in both, which is not an enormous value.
\<close>

theorem GetStats_wrap_counterexample:
  "GetStats \<lparr>fioSend = True, fioRecv = True, lastSend = 18446744073709551615,
             lastRecv = 18446744073709551615, open_if = True\<rparr>
      True True (Inr 1) (Inr 1)
     = ((2, 2, None),
        \<lparr>fioSend = True, fioRecv = True, lastSend = 1, lastRecv = 1, open_if = True\<rparr>)"
  by (simp add: GetStats_def)

section \<open>Add: the in-order path\<close>

lemma trim_take: "0 \<le> n \<Longrightarrow> trim h n = take (nat n) h"
proof (induction h n rule: trim.induct)
  case (1 h n)
  show ?case
  proof (cases "h \<noteq> [] \<and> n < int (length h)")
    case True
    then have "trim h n = trim (butlast h) n" by (subst trim.simps) simp
    also have "\<dots> = take (nat n) (butlast h)" using "1.IH" [OF True "1.prems"] .
    also have "\<dots> = take (nat n) h"
    proof -
      have "nat n < length h" using True "1.prems" by linarith
      then show ?thesis by (rule take_butlast)
    qed
    finally show ?thesis .
  next
    case False
    then have "trim h n = h" by (subst trim.simps) auto
    moreover have "take (nat n) h = h" using False "1.prems" by (cases h) auto
    ultimately show ?thesis by simp
  qed
qed

lemma Add_closed: "\<not> open_db D \<Longrightarrow> Add D s loc seen c = (Some errNotOpen, D)"
  by (simp add: Add_def)

lemma Add_out_of_order:
  "open_db D \<Longrightarrow> \<not> After s (last_db D) \<Longrightarrow> Add D s loc seen c = addOutOfOrder D s loc c"
  by (simp add: Add_def)

text \<open>What the in-order path of \<open>Add\<close> returns.\<close>

lemma Add_in_order:
  fixes loc :: Location
  assumes "open_db D" "After s (last_db D)"
  defines "h \<equiv> trim (s # hist D) (histSize D)"
    and "l \<equiv> (if last_db D = zeroTime \<and> isUTC (last_loc D) then TS s else last_db D)"
    and "ll \<equiv> (if last_db D = zeroTime \<and> isUTC (last_loc D) then loc else last_loc D)"
  shows "Add D s loc seen c =
     (case addTx seen l ll s loc (db D) of
        Inl e \<Rightarrow> (Some e, D\<lparr>hist := h, last_db := l, last_loc := ll\<rparr>)
      | Inr st' \<Rightarrow>
          if c then (None, D\<lparr>hist := h, db := st', last_db := TS s, last_loc := loc\<rparr>)
          else (Some errStorage, D\<lparr>hist := h, last_db := l, last_loc := ll\<rparr>))"
proof (cases "last_db D = zeroTime")
  case z: True
  show ?thesis
  proof (cases "isUTC (last_loc D)")
    case True
    then show ?thesis
      using assms(1,2) z unfolding h_def l_def ll_def
      by (cases "addTx seen (TS s) loc s loc (db D)") (simp_all add: Add_def Let_def Batch_def)
  next
    case False
    then show ?thesis
      using assms(1,2) z unfolding h_def l_def ll_def
      by (cases "addTx seen zeroTime (last_loc D) s loc (db D)")
        (simp_all add: Add_def Let_def Batch_def)
  qed
next
  case False
  then show ?thesis
    using assms(1,2) unfolding h_def l_def ll_def
    by (cases "addTx seen (last_db D) (last_loc D) s loc (db D)")
      (simp_all add: Add_def Let_def Batch_def)
qed

lemma addOutOfOrder_fields:
  "histSize (snd (addOutOfOrder D s loc c)) = histSize D"
  "open_db (snd (addOutOfOrder D s loc c)) = open_db D"
  "hist (snd (addOutOfOrder D s loc c)) = hist D"
  "last_db (snd (addOutOfOrder D s loc c)) = last_db D"
  "last_loc (snd (addOutOfOrder D s loc c)) = last_loc D"
  by (simp_all add: addOutOfOrder_def split: prod.splits)

lemma Add_fields:
  "histSize (snd (Add D s loc seen c)) = histSize D"
  "open_db (snd (Add D s loc seen c)) = open_db D"
  "hist (snd (Add D s loc seen c)) =
     (if open_db D \<and> After s (last_db D) then trim (s # hist D) (histSize D) else hist D)"
proof -
  consider "\<not> open_db D" | "open_db D" "\<not> After s (last_db D)" | "open_db D" "After s (last_db D)"
    by blast
  then have "histSize (snd (Add D s loc seen c)) = histSize D
     \<and> open_db (snd (Add D s loc seen c)) = open_db D
     \<and> hist (snd (Add D s loc seen c)) =
        (if open_db D \<and> After s (last_db D) then trim (s # hist D) (histSize D) else hist D)"
  proof cases
    case 1
    then show ?thesis by (simp add: Add_closed)
  next
    case 2
    then show ?thesis by (simp add: Add_out_of_order addOutOfOrder_fields)
  next
    case 3
    then show ?thesis
      unfolding Add_in_order [OF 3]
      by (cases "addTx seen (if last_db D = zeroTime \<and> isUTC (last_loc D) then TS s else last_db D)
                   (if last_db D = zeroTime \<and> isUTC (last_loc D) then loc else last_loc D) s loc (db D)") simp_all
  qed
  then show "histSize (snd (Add D s loc seen c)) = histSize D"
    and "open_db (snd (Add D s loc seen c)) = open_db D"
    and "hist (snd (Add D s loc seen c)) =
     (if open_db D \<and> After s (last_db D) then trim (s # hist D) (histSize D) else hist D)"
    by simp_all
qed

lemma Add_last_in_order:
  assumes "open_db D" "After s (last_db D)"
  shows "last_db (snd (Add D s loc seen c)) \<le> TS s"
proof -
  have "last_db D \<le> TS s" using assms(2) by (simp add: After_def Before_def TS_def)
  then show ?thesis
    unfolding Add_in_order [OF assms]
    by (cases "addTx seen (if last_db D = zeroTime \<and> isUTC (last_loc D) then TS s else last_db D)
                 (if last_db D = zeroTime \<and> isUTC (last_loc D) then loc else last_loc D) s loc (db D)") simp_all
qed

section \<open>The live list\<close>

lemma shiftIfOlder_fields:
  "histSize (snd (shiftIfOlder D local src dst tc fmt c)) = histSize D"
  "hist (snd (shiftIfOlder D local src dst tc fmt c)) = hist D"
  "open_db (snd (shiftIfOlder D local src dst tc fmt c)) = open_db D"
  by (simp_all add: shiftIfOlder_def split: prod.splits)

lemma Rebase_fields:
  "histSize (snd (Rebase D ts local c1 c2 c3)) = histSize D \<and> hist (snd (Rebase D ts local c1 c2 c3)) = hist D"
proof (cases "open_db D")
  case False
  then show ?thesis by (simp add: Rebase_def)
next
  case True
  obtain e1 D1 where s1: "shiftIfOlder D local bktMin bktHour (prevHour ts) hourFmt c1 = (e1, D1)"
    by (cases "shiftIfOlder D local bktMin bktHour (prevHour ts) hourFmt c1")
  obtain e2 D2 where s2: "shiftIfOlder D1 local bktHour bktDay (prevDay ts) dayFmt c2 = (e2, D2)"
    by (cases "shiftIfOlder D1 local bktHour bktDay (prevDay ts) dayFmt c2")
  have f1: "histSize D1 = histSize D \<and> hist D1 = hist D"
    using shiftIfOlder_fields(1,2) [of D local bktMin bktHour "prevHour ts" hourFmt c1] by (simp add: s1)
  have f2: "histSize D2 = histSize D \<and> hist D2 = hist D"
    using shiftIfOlder_fields(1,2) [of D1 local bktHour bktDay "prevDay ts" dayFmt c2] f1 by (simp add: s2)
  show ?thesis
    using True f1 f2
    by (cases e1; cases e2) (simp_all add: Rebase_def s1 s2 shiftIfOlder_fields)
qed

lemma purge_fields:
  "histSize (snd (purge D c)) = histSize D \<and> length (hist (snd (purge D c))) \<le> length (hist D)"
  by (simp add: purge_def Let_def split: prod.splits)

lemma Close_fields:
  "histSize (snd (Close D c)) = histSize D \<and> length (hist (snd (Close D c))) \<le> length (hist D)"
  by (simp add: Close_def)

lemma trim_length: "0 \<le> n \<Longrightarrow> int (length (trim h n)) \<le> n"
  by (simp add: trim_take)

lemma dbStep_ring:
  assumes "0 < histSize D" "int (length (hist D)) \<le> histSize D"
  shows "histSize (dbStep D x) = histSize D \<and> int (length (hist (dbStep D x))) \<le> histSize D"
proof (cases x)
  case (OpAdd s loc seen c)
  have "int (length (trim (s # hist D) (histSize D))) \<le> histSize D"
    using assms(1) by (intro trim_length) simp
  then show ?thesis using assms(2) by (simp add: OpAdd Add_fields)
next
  case (OpAddRand s loc c)
  then show ?thesis using assms(2) by (simp add: AddRand_def addOutOfOrder_fields)
next
  case (OpRebase ts local c1 c2 c3)
  then show ?thesis using assms(2) Rebase_fields [of D ts local c1 c2 c3] by simp
next
  case (OpPurge c)
  then show ?thesis using assms(2) purge_fields [of D c] by simp
next
  case (OpClose c)
  then show ?thesis using assms(2) Close_fields [of D c] by simp
qed

lemma dbRun_ring:
  "0 < histSize D \<Longrightarrow> int (length (hist D)) \<le> histSize D \<Longrightarrow>
   histSize (dbRun D xs) = histSize D \<and> int (length (hist (dbRun D xs))) \<le> histSize D"
proof (induction xs arbitrary: D)
  case Nil
  then show ?case by simp
next
  case (Cons x xs)
  from dbStep_ring [OF Cons.prems, of x] Cons.IH [of "dbStep D x"] Cons.prems(1)
  show ?case by simp
qed

lemma take_append_take: "take n (xs @ take n ys) = take n (xs @ ys)"
  by (simp add: min_def)

lemma addAll_hist:
  "inOrder D xs \<Longrightarrow> 0 \<le> histSize D \<Longrightarrow> int (length (hist D)) \<le> histSize D \<Longrightarrow>
   histSize (addAll D xs) = histSize D
   \<and> hist (addAll D xs) = take (nat (histSize D)) (rev (map fst xs) @ hist D)"
proof (induction xs arbitrary: D)
  case Nil
  then show ?case by simp
next
  case (Cons x xs)
  obtain s loc seen c where x: "x = (s, loc, seen, c)" using prod_cases4 by blast
  let ?D1 = "snd (Add D s loc seen c)"
  from Cons.prems(1) have o: "open_db D" and a: "After s (last_db D)" and r: "inOrder ?D1 xs"
    by (simp_all add: x)
  have h1: "hist ?D1 = take (nat (histSize D)) (s # hist D)"
    using o a Cons.prems(2) by (simp add: Add_fields trim_take)
  have z1: "histSize ?D1 = histSize D" by (simp add: Add_fields)
  have l1: "int (length (hist ?D1)) \<le> histSize ?D1"
    using Cons.prems(2) by (simp add: h1 z1)
  from Cons.IH [OF r] Cons.prems(2) z1 l1
  have "histSize (addAll ?D1 xs) = histSize D"
    and "hist (addAll ?D1 xs) = take (nat (histSize D)) (rev (map fst xs) @ hist ?D1)"
    by simp_all
  then show ?case
    unfolding h1 take_append_take by (simp add: x)
qed

lemma inOrder_sorted:
  "open_db D \<Longrightarrow> sorted (last_db D # map (\<lambda>x. Ts (fst x)) xs) \<Longrightarrow> inOrder D xs"
proof (induction xs arbitrary: D)
  case Nil
  then show ?case by simp
next
  case (Cons x xs)
  obtain s loc seen c where x: "x = (s, loc, seen, c)" using prod_cases4 by blast
  let ?D1 = "snd (Add D s loc seen c)"
  have a: "After s (last_db D)" using Cons.prems(2) by (simp add: x After_def Before_def)
  have "last_db ?D1 \<le> Ts s" using Add_last_in_order [OF Cons.prems(1) a, of loc seen c] by (simp add: TS_def)
  moreover have "sorted (Ts s # map (\<lambda>x. Ts (fst x)) xs)" using Cons.prems(2) by (simp add: x)
  ultimately have "sorted (last_db ?D1 # map (\<lambda>x. Ts (fst x)) xs)" by auto
  moreover have "open_db ?D1" using Cons.prems(1) by (simp add: Add_fields)
  ultimately have "inOrder ?D1 xs" by (intro Cons.IH)
  then show ?case using Cons.prems(1) a by (simp add: x)
qed

lemma NewBwDb_fields:
  assumes "NewBwDb opened liveSize = Inr D"
  shows "histSize D = (if liveSize \<le> 0 then 60 else liveSize)" "hist D = []" "open_db D"
    "last_db D = zeroTime" "last_loc D = UTC"
  using assms by (auto simp: NewBwDb_def defaultHistSize_def split: sum.splits)

text \<open>
  Claim C8. The engine \<open>NewBwDb\<close> returns has the configured size as the capacity of
  its live list, or 60 when the configured size is not positive. After any run of
  operations from there the live list is not longer than the capacity; and when such a
  run is followed by at least as many \<open>Add\<close> calls as the capacity, each taking the
  in-order path (whether its batch commits or not), the live list has exactly the length
  of the capacity and its front is the sample of the last call.
\<close>

theorem live_ring_bound:
  assumes "NewBwDb opened liveSize = Inr D0"
  shows "histSize D0 = (if liveSize \<le> 0 then 60 else liveSize)
       \<and> (\<forall>ops. int (length (hist (dbRun D0 ops))) \<le> histSize D0)
       \<and> (\<forall>ops xs. inOrder (dbRun D0 ops) xs \<and> histSize D0 \<le> int (length xs) \<longrightarrow>
             int (length (hist (addAll (dbRun D0 ops) xs))) = histSize D0
           \<and> hd (hist (addAll (dbRun D0 ops) xs)) = fst (last xs))"
proof -
  note f = NewBwDb_fields [OF assms]
  have p: "0 < histSize D0" using f(1) by (simp split: if_splits)
  have l: "int (length (hist D0)) \<le> histSize D0" using f(2) p by simp
  have run: "histSize (dbRun D0 ops) = histSize D0
      \<and> int (length (hist (dbRun D0 ops))) \<le> histSize D0" for ops
    by (rule dbRun_ring [OF p l])
  have ring: "int (length (hist (addAll (dbRun D0 ops) xs))) = histSize D0
           \<and> hd (hist (addAll (dbRun D0 ops) xs)) = fst (last xs)"
    if "inOrder (dbRun D0 ops) xs \<and> histSize D0 \<le> int (length xs)" for ops xs
  proof -
    let ?D = "dbRun D0 ops"
    from that have io: "inOrder ?D xs" and n: "histSize D0 \<le> int (length xs)" by simp_all
    have z: "histSize ?D = histSize D0" and b: "int (length (hist ?D)) \<le> histSize ?D"
      using run [of ops] by simp_all
    have "0 \<le> histSize ?D" using p z by simp
    from addAll_hist [OF io this b]
    have h: "hist (addAll ?D xs) = take (nat (histSize D0)) (rev (map fst xs) @ hist ?D)"
      by (simp add: z)
    have ne: "xs \<noteq> []" using n p by auto
    have "nat (histSize D0) \<le> length (rev (map fst xs) @ hist ?D)"
      using n by simp
    then have "length (hist (addAll ?D xs)) = nat (histSize D0)"
      unfolding h by (simp only: length_take min_absorb2)
    then have len: "int (length (hist (addAll ?D xs))) = histSize D0"
      using p by simp
    have "hd (hist (addAll ?D xs)) = hd (rev (map fst xs) @ hist ?D)"
      unfolding h using p by (cases "rev (map fst xs) @ hist ?D") (auto simp: take_Cons')
    also have "\<dots> = fst (last xs)" using ne by (simp add: hd_rev last_map)
    finally show ?thesis using len by simp
  qed
  show ?thesis using f(1) run ring by blast
qed

text \<open>
  With a configured size of 2, three in-order samples (the commit of the second fails)
  leave a live list of length 2 whose front is the third; a configured size of 0 gives
  the capacity 60.
\<close>

theorem live_ring_bound_witness:
  "NewBwDb (Inr Map.empty) 0
     = Inr \<lparr>open_db = True, db = Map.empty, hist = [], histSize = 60, last_db = zeroTime, last_loc = UTC\<rparr>
   \<and> NewBwDb (Inr Map.empty) 2
     = Inr \<lparr>open_db = True, db = Map.empty, hist = [], histSize = 2, last_db = zeroTime, last_loc = UTC\<rparr>
   \<and> inOrder \<lparr>open_db = True, db = Map.empty, hist = [], histSize = 2, last_db = zeroTime, last_loc = UTC\<rparr>
       [(\<lparr>Ts = 1458000001000000000, BytesUp = 1, BytesDown = 1\<rparr>, UTC, seesAll, True),
        (\<lparr>Ts = 1458000002000000000, BytesUp = 2, BytesDown = 2\<rparr>, UTC, seesAll, False),
        (\<lparr>Ts = 1458000003000000000, BytesUp = 3, BytesDown = 3\<rparr>, UTC, seesAll, True)]
   \<and> int (length (hist (addAll
       \<lparr>open_db = True, db = Map.empty, hist = [], histSize = 2, last_db = zeroTime, last_loc = UTC\<rparr>
       [(\<lparr>Ts = 1458000001000000000, BytesUp = 1, BytesDown = 1\<rparr>, UTC, seesAll, True),
        (\<lparr>Ts = 1458000002000000000, BytesUp = 2, BytesDown = 2\<rparr>, UTC, seesAll, False),
        (\<lparr>Ts = 1458000003000000000, BytesUp = 3, BytesDown = 3\<rparr>, UTC, seesAll, True)]))) = 2
   \<and> hd (hist (addAll
       \<lparr>open_db = True, db = Map.empty, hist = [], histSize = 2, last_db = zeroTime, last_loc = UTC\<rparr>
       [(\<lparr>Ts = 1458000001000000000, BytesUp = 1, BytesDown = 1\<rparr>, UTC, seesAll, True),
        (\<lparr>Ts = 1458000002000000000, BytesUp = 2, BytesDown = 2\<rparr>, UTC, seesAll, False),
        (\<lparr>Ts = 1458000003000000000, BytesUp = 3, BytesDown = 3\<rparr>, UTC, seesAll, True)]))
     = \<lparr>Ts = 1458000003000000000, BytesUp = 3, BytesDown = 3\<rparr>"
proof -
  let ?D = "\<lparr>open_db = True, db = Map.empty, hist = [], histSize = 2, last_db = zeroTime, last_loc = UTC\<rparr>"
  let ?xs = "[(\<lparr>Ts = 1458000001000000000, BytesUp = 1, BytesDown = 1\<rparr>, UTC, seesAll, True),
        (\<lparr>Ts = 1458000002000000000, BytesUp = 2, BytesDown = 2\<rparr>, UTC, seesAll, False),
        (\<lparr>Ts = 1458000003000000000, BytesUp = 3, BytesDown = 3\<rparr>, UTC, seesAll, True)]"
  have n0: "NewBwDb (Inr Map.empty) 0
     = Inr \<lparr>open_db = True, db = Map.empty, hist = [], histSize = 60, last_db = zeroTime, last_loc = UTC\<rparr>"
    by (simp add: NewBwDb_def defaultHistSize_def)
  have n: "NewBwDb (Inr Map.empty) 2 = Inr ?D"
    by (simp add: NewBwDb_def)
  have io: "inOrder (dbRun ?D []) ?xs"
    unfolding dbRun.simps
    by (rule inOrder_sorted) (simp_all add: zeroTime_def time_Second_def)
  have len: "histSize ?D \<le> int (length ?xs)" by simp
  from live_ring_bound [OF n] io len
  have "int (length (hist (addAll (dbRun ?D []) ?xs))) = histSize ?D
      \<and> hd (hist (addAll (dbRun ?D []) ?xs)) = fst (last ?xs)"
    by blast
  then show ?thesis using n0 n io by simp
qed

section \<open>Add: a storage error on the first insert\<close>

lemma addTx_fresh: "\<exists>tx'. addTx seen (TS s) loc s loc Map.empty = Inr tx'"
  by (simp add: addTx_def Let_def shiftIfNew_def TimeLabel_def TS_def updateVal_def Get_def
      entries_def CreateBucketIfNotExists_def Put_def)

text \<open>
  When the in-order path of \<open>Add\<close> returns an error the store is as it was, and \<open>last\<close>
  is as it was unless it was the zero \<open>time.Time\<close>: then it is the timestamp of the
  sample.
\<close>

lemma Add_in_order_failure:
  assumes "open_db D" "After s (last_db D)" "Add D s loc seen c = (Some err, D')"
  shows "db D' = db D \<and> last_db D' = (if last_db D = zeroTime \<and> isUTC (last_loc D) then TS s else last_db D)"
  using assms(3) unfolding Add_in_order [OF assms(1,2)]
  by (cases "addTx seen (if last_db D = zeroTime \<and> isUTC (last_loc D) then TS s else last_db D)
               (if last_db D = zeroTime \<and> isUTC (last_loc D) then loc else last_loc D) s loc (db D)")
     (auto split: if_splits)

text \<open>
  Claim C3 at its failing input: the first insert into a new engine on an empty store,
  with a commit that fails. \<open>Add\<close> returns the error and the store is as it was, but
  \<open>last\<close> is the timestamp of the sample: it is set before the batch runs when it is the
  zero time, and not set back.
\<close>

theorem Add_first_insert_failure:
  "Add \<lparr>open_db = True, db = Map.empty, hist = [], histSize = 60, last_db = zeroTime,
        last_loc = UTC\<rparr>
     \<lparr>Ts = 1458000000000000000, BytesUp = 5, BytesDown = 7\<rparr> UTC seesAll False
   = (Some errStorage,
      \<lparr>open_db = True, db = Map.empty,
       hist = [\<lparr>Ts = 1458000000000000000, BytesUp = 5, BytesDown = 7\<rparr>],
       histSize = 60, last_db = 1458000000000000000, last_loc = UTC\<rparr>)"
proof -
  let ?D = "\<lparr>open_db = True, db = Map.empty, hist = [], histSize = 60, last_db = zeroTime, last_loc = UTC\<rparr>"
  let ?s = "\<lparr>Ts = 1458000000000000000, BytesUp = 5, BytesDown = 7\<rparr>"
  have o: "open_db ?D" by simp
  have a: "After ?s (last_db ?D)"
    by (simp add: After_def Before_def zeroTime_def time_Second_def)
  obtain tx' where t: "addTx seesAll (TS ?s) UTC ?s UTC Map.empty = Inr tx'"
    using addTx_fresh [of seesAll ?s UTC] by blast
  show ?thesis
    unfolding Add_in_order [OF o a] using t by (simp add: trim_take TS_def)
qed

section \<open>Rebase after a restart: an example\<close>

text \<open>
  An example, in a process whose local zone is at offset zero. A new engine on an empty
  store takes one sample of February 10, 2016, 12:00:00 UTC, and is closed; the store is
  opened again on March 15, 10:30:00, and \<open>Rebase\<close> runs.
\<close>

lemma example_times:
  "prevHour 1458037800000000000 = 1458039600000000000"
  "prevDay 1458037800000000000 = 1458086400000000000"
  "prevMon 1458037800000000000 = 1454284800000000000"
  "start_of_hour 1458037800000000000 = 1458036000000000000"
  "start_of_day 1458037800000000000 = 1458000000000000000"
  "start_of_month 1458037800000000000 = 1456790400000000000"
  "start_of_prev_month 1458037800000000000 = 1454284800000000000"
  "Year 1458037800000000000 = 2016"
  by code_simp+

lemma example_labels:
  "Format 1455105600000000000 minFmt = ''021020161200''"
  "Format 1455105600000000000 hourFmt = ''0210201612''"
  "Format 1455105600000000000 dayFmt = ''02102016''"
  "Format 1455105600000000000 monFmt = ''022016''"
  by code_simp+

lemma example_decode:
  "Decode (Encode \<lparr>Ts = 1455105600000000000, BytesUp = b, BytesDown = c\<rparr>)
     = Inr \<lparr>Ts = 1455105600000000000, BytesUp = b, BytesDown = c\<rparr>"
  by (simp add: Decode_Encode)

lemma example_addTx:
  "addTx seesAll 1455105600000000000 UTC
     \<lparr>Ts = 1455105600000000000, BytesUp = 7, BytesDown = 9\<rparr> UTC Map.empty
   = Inr [bktMin \<mapsto> [(''021020161200'', Encode \<lparr>Ts = 1455105600000000000, BytesUp = 7, BytesDown = 9\<rparr>)],
          bktHour \<mapsto> [(''0210201612'', Encode \<lparr>Ts = 1455105600000000000, BytesUp = 7, BytesDown = 9\<rparr>)],
          bktDay \<mapsto> [(''02102016'', Encode \<lparr>Ts = 1455105600000000000, BytesUp = 7, BytesDown = 9\<rparr>)],
          bktMon \<mapsto> [(''022016'', Encode \<lparr>Ts = 1455105600000000000, BytesUp = 7, BytesDown = 9\<rparr>)]]"
  by (simp add: addTx_def Let_def shiftIfNew_def TimeLabel_def wallClock_UTC example_labels updateVal_def
      Get_def entries_def CreateBucketIfNotExists_def Put_def Tx_eq_iff)

lemma example_Add:
  "Add \<lparr>open_db = True, db = Map.empty, hist = [], histSize = 60, last_db = zeroTime, last_loc = UTC\<rparr>
     \<lparr>Ts = 1455105600000000000, BytesUp = 7, BytesDown = 9\<rparr> UTC seesAll True
   = (None,
      \<lparr>open_db = True,
       db = [bktMin \<mapsto> [(''021020161200'', Encode \<lparr>Ts = 1455105600000000000, BytesUp = 7, BytesDown = 9\<rparr>)],
          bktHour \<mapsto> [(''0210201612'', Encode \<lparr>Ts = 1455105600000000000, BytesUp = 7, BytesDown = 9\<rparr>)],
          bktDay \<mapsto> [(''02102016'', Encode \<lparr>Ts = 1455105600000000000, BytesUp = 7, BytesDown = 9\<rparr>)],
          bktMon \<mapsto> [(''022016'', Encode \<lparr>Ts = 1455105600000000000, BytesUp = 7, BytesDown = 9\<rparr>)]],
       hist = [\<lparr>Ts = 1455105600000000000, BytesUp = 7, BytesDown = 9\<rparr>],
       histSize = 60, last_db = 1455105600000000000, last_loc = UTC\<rparr>)"
proof -
  let ?D = "\<lparr>open_db = True, db = Map.empty, hist = [], histSize = 60, last_db = zeroTime, last_loc = UTC\<rparr>"
  let ?s = "\<lparr>Ts = 1455105600000000000, BytesUp = 7, BytesDown = 9\<rparr>"
  have o: "open_db ?D" by simp
  have a: "After ?s (last_db ?D)"
    by (simp add: After_def Before_def zeroTime_def time_Second_def)
  show ?thesis
    unfolding Add_in_order [OF o a] by (simp add: TS_def example_addTx trim_take)
qed

lemma example_shift1:
  "shiftTx (FixedZone 0) bktMin bktHour 1458039600000000000 hourFmt
     [bktMin \<mapsto> [(''021020161200'', Encode \<lparr>Ts = 1455105600000000000, BytesUp = 7, BytesDown = 9\<rparr>)],
      bktHour \<mapsto> [(''0210201612'', Encode \<lparr>Ts = 1455105600000000000, BytesUp = 7, BytesDown = 9\<rparr>)],
      bktDay \<mapsto> [(''02102016'', Encode \<lparr>Ts = 1455105600000000000, BytesUp = 7, BytesDown = 9\<rparr>)],
      bktMon \<mapsto> [(''022016'', Encode \<lparr>Ts = 1455105600000000000, BytesUp = 7, BytesDown = 9\<rparr>)]]
   = Inr [bktMin \<mapsto> [],
      bktHour \<mapsto> [(''0210201612'', Encode \<lparr>Ts = 1455105600000000000, BytesUp = 14, BytesDown = 18\<rparr>)],
      bktDay \<mapsto> [(''02102016'', Encode \<lparr>Ts = 1455105600000000000, BytesUp = 7, BytesDown = 9\<rparr>)],
      bktMon \<mapsto> [(''022016'', Encode \<lparr>Ts = 1455105600000000000, BytesUp = 7, BytesDown = 9\<rparr>)]]"
  by (simp add: shiftTx_def Let_def CreateBucketIfNotExists_def entries_def example_decode
      Before_def TS_def wallClock_FixedZone example_labels updateVal_def Get_def Put_def Delete_def
      bucket_delete_def BWSample_Add_def Tx_eq_iff)

lemma example_shift2:
  "shiftTx (FixedZone 0) bktHour bktDay 1458086400000000000 dayFmt
     [bktMin \<mapsto> [],
      bktHour \<mapsto> [(''0210201612'', Encode \<lparr>Ts = 1455105600000000000, BytesUp = 14, BytesDown = 18\<rparr>)],
      bktDay \<mapsto> [(''02102016'', Encode \<lparr>Ts = 1455105600000000000, BytesUp = 7, BytesDown = 9\<rparr>)],
      bktMon \<mapsto> [(''022016'', Encode \<lparr>Ts = 1455105600000000000, BytesUp = 7, BytesDown = 9\<rparr>)]]
   = Inr [bktMin \<mapsto> [], bktHour \<mapsto> [],
      bktDay \<mapsto> [(''02102016'', Encode \<lparr>Ts = 1455105600000000000, BytesUp = 21, BytesDown = 27\<rparr>)],
      bktMon \<mapsto> [(''022016'', Encode \<lparr>Ts = 1455105600000000000, BytesUp = 7, BytesDown = 9\<rparr>)]]"
  by (simp add: shiftTx_def Let_def CreateBucketIfNotExists_def entries_def example_decode
      Before_def TS_def wallClock_FixedZone example_labels updateVal_def Get_def Put_def Delete_def
      bucket_delete_def BWSample_Add_def Tx_eq_iff)

lemma example_shift3:
  "shiftTx (FixedZone 0) bktDay bktMon 1454284800000000000 monFmt
     [bktMin \<mapsto> [], bktHour \<mapsto> [],
      bktDay \<mapsto> [(''02102016'', Encode \<lparr>Ts = 1455105600000000000, BytesUp = 21, BytesDown = 27\<rparr>)],
      bktMon \<mapsto> [(''022016'', Encode \<lparr>Ts = 1455105600000000000, BytesUp = 7, BytesDown = 9\<rparr>)]]
   = Inr [bktMin \<mapsto> [], bktHour \<mapsto> [],
      bktDay \<mapsto> [(''02102016'', Encode \<lparr>Ts = 1455105600000000000, BytesUp = 21, BytesDown = 27\<rparr>)],
      bktMon \<mapsto> [(''022016'', Encode \<lparr>Ts = 1455105600000000000, BytesUp = 7, BytesDown = 9\<rparr>)]]"
  by (simp add: shiftTx_def Let_def CreateBucketIfNotExists_def entries_def example_decode
      Before_def TS_def Tx_eq_iff)

lemma Rebase_example:
  "Rebase
     \<lparr>open_db = True,
      db = [bktMin \<mapsto> [(''021020161200'', Encode \<lparr>Ts = 1455105600000000000, BytesUp = 7, BytesDown = 9\<rparr>)],
          bktHour \<mapsto> [(''0210201612'', Encode \<lparr>Ts = 1455105600000000000, BytesUp = 7, BytesDown = 9\<rparr>)],
          bktDay \<mapsto> [(''02102016'', Encode \<lparr>Ts = 1455105600000000000, BytesUp = 7, BytesDown = 9\<rparr>)],
          bktMon \<mapsto> [(''022016'', Encode \<lparr>Ts = 1455105600000000000, BytesUp = 7, BytesDown = 9\<rparr>)]],
      hist = [], histSize = 60, last_db = zeroTime, last_loc = UTC\<rparr>
     1458037800000000000 (FixedZone 0) True True True
   = (None,
     \<lparr>open_db = True,
      db = [bktMin \<mapsto> [], bktHour \<mapsto> [],
          bktDay \<mapsto> [(''02102016'', Encode \<lparr>Ts = 1455105600000000000, BytesUp = 21, BytesDown = 27\<rparr>)],
          bktMon \<mapsto> [(''022016'', Encode \<lparr>Ts = 1455105600000000000, BytesUp = 7, BytesDown = 9\<rparr>)]],
      hist = [], histSize = 60, last_db = zeroTime, last_loc = UTC\<rparr>)"
  by (simp add: Rebase_def shiftIfOlder_def Batch_def example_times example_shift1 example_shift2
      example_shift3)

text \<open>
  In the example \<open>Rebase\<close> empties the minute and the hour bucket and leaves the day
  bucket with the entry of February 10, which is not before February 1, the start of the
  month before.
\<close>

theorem Rebase_residency_witness:
  "1 \<le> Year 1458037800000000000 \<and> Year 1458037800000000000 \<le> 9999
   \<and> all_at_or_after (entries (db
     \<lparr>open_db = True,
      db = [bktMin \<mapsto> [], bktHour \<mapsto> [],
          bktDay \<mapsto> [(''02102016'', Encode \<lparr>Ts = 1455105600000000000, BytesUp = 21, BytesDown = 27\<rparr>)],
          bktMon \<mapsto> [(''022016'', Encode \<lparr>Ts = 1455105600000000000, BytesUp = 7, BytesDown = 9\<rparr>)]],
      hist = [], histSize = 60, last_db = zeroTime, last_loc = UTC\<rparr>) bktMin) (start_of_hour 1458037800000000000)
   \<and> all_at_or_after (entries (db
     \<lparr>open_db = True,
      db = [bktMin \<mapsto> [], bktHour \<mapsto> [],
          bktDay \<mapsto> [(''02102016'', Encode \<lparr>Ts = 1455105600000000000, BytesUp = 21, BytesDown = 27\<rparr>)],
          bktMon \<mapsto> [(''022016'', Encode \<lparr>Ts = 1455105600000000000, BytesUp = 7, BytesDown = 9\<rparr>)]],
      hist = [], histSize = 60, last_db = zeroTime, last_loc = UTC\<rparr>) bktHour) (start_of_day 1458037800000000000)
   \<and> all_at_or_after (entries (db
     \<lparr>open_db = True,
      db = [bktMin \<mapsto> [], bktHour \<mapsto> [],
          bktDay \<mapsto> [(''02102016'', Encode \<lparr>Ts = 1455105600000000000, BytesUp = 21, BytesDown = 27\<rparr>)],
          bktMon \<mapsto> [(''022016'', Encode \<lparr>Ts = 1455105600000000000, BytesUp = 7, BytesDown = 9\<rparr>)]],
      hist = [], histSize = 60, last_db = zeroTime, last_loc = UTC\<rparr>) bktDay) (start_of_prev_month 1458037800000000000)"
  using Rebase_residency [OF Rebase_example] by (simp add: example_times)

text \<open>
  Claim C1 as it was stated asks the entries of the day bucket to be not before the start
  of the month of \<open>T\<close>. In the example the store is the one a single \<open>Add\<close> leaves, and
  its entry of February 10 stays in the day bucket after the \<open>Rebase\<close> of March 15:
  \<open>prevMon\<close> is the start of February, the month before, and only entries before it are
  moved to the month bucket.
\<close>

theorem Rebase_residency_counterexample:
  "Add \<lparr>open_db = True, db = Map.empty, hist = [], histSize = 60, last_db = zeroTime, last_loc = UTC\<rparr>
     \<lparr>Ts = 1455105600000000000, BytesUp = 7, BytesDown = 9\<rparr> UTC seesAll True
   = (None,
      \<lparr>open_db = True,
       db = [bktMin \<mapsto> [(''021020161200'', Encode \<lparr>Ts = 1455105600000000000, BytesUp = 7, BytesDown = 9\<rparr>)],
          bktHour \<mapsto> [(''0210201612'', Encode \<lparr>Ts = 1455105600000000000, BytesUp = 7, BytesDown = 9\<rparr>)],
          bktDay \<mapsto> [(''02102016'', Encode \<lparr>Ts = 1455105600000000000, BytesUp = 7, BytesDown = 9\<rparr>)],
          bktMon \<mapsto> [(''022016'', Encode \<lparr>Ts = 1455105600000000000, BytesUp = 7, BytesDown = 9\<rparr>)]],
       hist = [\<lparr>Ts = 1455105600000000000, BytesUp = 7, BytesDown = 9\<rparr>],
       histSize = 60, last_db = 1455105600000000000, last_loc = UTC\<rparr>)
   \<and> Rebase
     \<lparr>open_db = True,
      db = [bktMin \<mapsto> [(''021020161200'', Encode \<lparr>Ts = 1455105600000000000, BytesUp = 7, BytesDown = 9\<rparr>)],
          bktHour \<mapsto> [(''0210201612'', Encode \<lparr>Ts = 1455105600000000000, BytesUp = 7, BytesDown = 9\<rparr>)],
          bktDay \<mapsto> [(''02102016'', Encode \<lparr>Ts = 1455105600000000000, BytesUp = 7, BytesDown = 9\<rparr>)],
          bktMon \<mapsto> [(''022016'', Encode \<lparr>Ts = 1455105600000000000, BytesUp = 7, BytesDown = 9\<rparr>)]],
      hist = [], histSize = 60, last_db = zeroTime, last_loc = UTC\<rparr>
     1458037800000000000 (FixedZone 0) True True True
   = (None,
     \<lparr>open_db = True,
      db = [bktMin \<mapsto> [], bktHour \<mapsto> [],
          bktDay \<mapsto> [(''02102016'', Encode \<lparr>Ts = 1455105600000000000, BytesUp = 21, BytesDown = 27\<rparr>)],
          bktMon \<mapsto> [(''022016'', Encode \<lparr>Ts = 1455105600000000000, BytesUp = 7, BytesDown = 9\<rparr>)]],
      hist = [], histSize = 60, last_db = zeroTime, last_loc = UTC\<rparr>)
   \<and> start_of_month 1458037800000000000 = 1456790400000000000
   \<and> Decode (Encode \<lparr>Ts = 1455105600000000000, BytesUp = 21, BytesDown = 27\<rparr>)
       = Inr \<lparr>Ts = 1455105600000000000, BytesUp = 21, BytesDown = 27\<rparr>
   \<and> \<not> all_at_or_after (entries (db
     \<lparr>open_db = True,
      db = [bktMin \<mapsto> [], bktHour \<mapsto> [],
          bktDay \<mapsto> [(''02102016'', Encode \<lparr>Ts = 1455105600000000000, BytesUp = 21, BytesDown = 27\<rparr>)],
          bktMon \<mapsto> [(''022016'', Encode \<lparr>Ts = 1455105600000000000, BytesUp = 7, BytesDown = 9\<rparr>)]],
      hist = [], histSize = 60, last_db = zeroTime, last_loc = UTC\<rparr>) bktDay) (start_of_month 1458037800000000000)"
proof -
  have "\<not> all_at_or_after (entries (db
     \<lparr>open_db = True,
      db = [bktMin \<mapsto> [], bktHour \<mapsto> [],
          bktDay \<mapsto> [(''02102016'', Encode \<lparr>Ts = 1455105600000000000, BytesUp = 21, BytesDown = 27\<rparr>)],
          bktMon \<mapsto> [(''022016'', Encode \<lparr>Ts = 1455105600000000000, BytesUp = 7, BytesDown = 9\<rparr>)]],
      hist = [], histSize = 60, last_db = zeroTime, last_loc = UTC\<rparr>) bktDay) (start_of_month 1458037800000000000)"
    by (simp add: example_times example_decode all_at_or_after_def kept_def entries_def)
  then show ?thesis
    using example_Add Rebase_example example_times(6) example_decode [of 21 27]
    by (intro conjI)
qed

section \<open>The live fan-out: failing consumers\<close>











text \<open>
  The id counter wraps round: at the largest id the next registration hands out id 0, and
  the consumer the map held at 0 is replaced.
\<close>

lemma RegisterLiveFeeder_wraps:
  "RegisterLiveFeeder \<lparr>liveIds = 18446744073709551615, liveConsumers = [(0, ''ws1'')]\<rparr> ''ws2''
     = (0, \<lparr>liveIds = 0, liveConsumers = [(0, ''ws2'')]\<rparr>)"
  by (simp add: RegisterLiveFeeder_def map_delete_def)



end
